theory Spec2Isabelle
  imports Complex_Main
begin

section \<open>Anharmonic scattering rates: the broadening kernels\<close>

text \<open>
  The development embeds \<^verbatim>\<open>ballistico/anharmoniccontroller.py\<close>. numpy's
  floating-point numbers are read as real numbers: the rounding of the arithmetic,
  overflow, \<^verbatim>\<open>inf\<close> and \<^verbatim>\<open>nan\<close> are outside the model; the rounding of the numbers
  written to the progress files is inside it. One-dimensional arrays are lists; an
  exception is a value of type \<open>error\<close>.
\<close>

datatype error =
  ValueError | IndexError | UnboundLocalError | AttributeError | TypeError | FileNotFoundError

text \<open>
  The second entry of \<^verbatim>\<open>params\<close> is either a number (a fixed width) or an array with one
  width per entry of the first.
\<close>

datatype width = Scalar real | Array "real list"

definition DELTA_THRESHOLD :: nat where
  "DELTA_THRESHOLD = 2"

definition IS_DELTA_CORRECTION_ENABLED :: bool where
  "IS_DELTA_CORRECTION_ENABLED = False"

text \<open>
  numpy's broadcasting of an elementwise binary operation over a one-dimensional array and
  a width: equal lengths pair up, a length-one side is repeated, anything else raises.
\<close>

fun broadcast2 :: "(real \<Rightarrow> real \<Rightarrow> real) \<Rightarrow> real list \<Rightarrow> width \<Rightarrow> error + real list" where
  "broadcast2 f xs (Scalar w) = Inr (map (\<lambda>x. f x w) xs)"
| "broadcast2 f xs (Array ws) =
     (if length ws = length xs then Inr (map2 f xs ws)
      else if length ws = 1 then Inr (map (\<lambda>x. f x (hd ws)) xs)
      else if length xs = 1 then Inr (map (f (hd xs)) ws)
      else Inl ValueError)"

text \<open>
  \<^verbatim>\<open>gaussian_delta\<close>: the correction is \<^verbatim>\<open>1\<close>, the module constant
  \<^verbatim>\<open>IS_DELTA_CORRECTION_ENABLED\<close> being \<^verbatim>\<open>False\<close>.
\<close>

definition gaussian :: "real \<Rightarrow> real \<Rightarrow> real" where
  "gaussian delta_energy sigma =
     (1 / sqrt (pi * sigma ^ 2) * exp (- (delta_energy ^ 2) / (sigma ^ 2))) / 1"

definition gaussian_delta :: "real list \<Rightarrow> width \<Rightarrow> error + real list" where
  "gaussian_delta delta_energy sigma = broadcast2 gaussian delta_energy sigma"

text \<open>\<^verbatim>\<open>lorentzian_delta\<close>, with its table of truncation corrections.\<close>

definition corrections :: "nat \<Rightarrow> real" where
  "corrections t =
     (if t = 1 then 704833 / 1000000 else if t = 2 then 844042 / 1000000
      else if t = 3 then 894863 / 1000000 else if t = 4 then 920833 / 1000000
      else if t = 5 then 936549 / 1000000 else if t = 6 then 947071 / 1000000
      else if t = 7 then 954604 / 1000000 else if t = 8 then 960263 / 1000000
      else if t = 9 then 964669 / 1000000 else 968195 / 1000000)"

definition lorentzian :: "real \<Rightarrow> real \<Rightarrow> real" where
  "lorentzian delta_energy gamma =
     (1 / pi * 1 / 2 * gamma / (delta_energy ^ 2 + (gamma / 2) ^ 2))
       / (if IS_DELTA_CORRECTION_ENABLED then corrections DELTA_THRESHOLD else 1)"

definition lorentzian_delta :: "real list \<Rightarrow> width \<Rightarrow> error + real list" where
  "lorentzian_delta delta_energy gamma = broadcast2 lorentzian delta_energy gamma"

text \<open>
  \<^verbatim>\<open>triangular_delta\<close>. Both inputs go through \<^verbatim>\<open>np.abs\<close> first. The value assigned
  under the mask is \<^verbatim>\<open>1. / deltaa * (1 - delta_energy[mask] / deltaa)\<close>: with a scalar
  width that is one ramp value per selected entry. With an array of widths the masked
  entries, \<open>m\<close> of them, meet the unmasked \<^verbatim>\<open>deltaa\<close> of length \<open>n\<close>, so the
  assignment goes through when every entry is selected (or the arrays have one entry) and
  raises otherwise.
\<close>

definition ramp :: "real \<Rightarrow> real \<Rightarrow> real" where
  "ramp delta_energy deltaa = 1 / deltaa * (1 - delta_energy / deltaa)"

definition triangle :: "real \<Rightarrow> real \<Rightarrow> real" where
  "triangle delta_energy deltaa = (if delta_energy < deltaa then ramp delta_energy deltaa else 0)"

fun triangular_delta :: "real list \<Rightarrow> width \<Rightarrow> error + real list" where
  "triangular_delta p0 (Scalar p1) =
     (let delta_energy = map abs p0; deltaa = \<bar>p1\<bar>
      in Inr (map (\<lambda>d. triangle d deltaa) delta_energy))"
| "triangular_delta p0 (Array p1) =
     (let delta_energy = map abs p0; deltaa = map abs p1
      in if length deltaa = length delta_energy then
           (if list_all2 (<) delta_energy deltaa then Inr (map2 ramp delta_energy deltaa)
            else if length delta_energy = 1 then Inr [0]
            else Inl ValueError)
         else if length deltaa = 1 then Inr (map (\<lambda>d. triangle d (hd deltaa)) delta_energy)
         else if length delta_energy = 1 then Inl IndexError
         else Inl ValueError)"

text \<open>A width negated: the number, or every entry of the array.\<close>

fun negate_width :: "width \<Rightarrow> width" where
  "negate_width (Scalar w) = Scalar (- w)"
| "negate_width (Array ws) = Array (map uminus ws)"


section \<open>The mesh, the adaptive width and one bra mode\<close>

text \<open>
  Constants of \<^verbatim>\<open>ase.units\<close>, a library outside the repository: they are parameters of
  the model.
\<close>

record units =
  hbar :: real
  mol :: real
  J :: real
  kB :: real

definition EVTOTENJOVERMOL :: "units \<Rightarrow> real" where
  "EVTOTENJOVERMOL U = mol U / (10 * J U)"

definition KELVINTOTHZ :: "units \<Rightarrow> real" where
  "KELVINTOTHZ U = kB U / J U / (2 * pi * hbar U) * (1 / 10 ^ 12)"

text \<open>
  The mesh \<^verbatim>\<open>k_size\<close> has three dimensions. \<^verbatim>\<open>np.unravel_index\<close> and
  \<^verbatim>\<open>np.ravel_multi_index\<close> (order C, mode wrap) are row-major; wrapping reduces every
  component modulo its dimension, negative components included.
\<close>

type_synonym mesh = "nat \<times> nat \<times> nat"

fun prod_mesh :: "mesh \<Rightarrow> nat" where
  "prod_mesh (nx, ny, nz) = nx * ny * nz"

fun mesh_at :: "mesh \<Rightarrow> nat \<Rightarrow> nat" where
  "mesh_at (nx, ny, nz) c = (if c = 0 then nx else if c = 1 then ny else nz)"

fun unravel_index :: "nat \<Rightarrow> mesh \<Rightarrow> int \<times> int \<times> int" where
  "unravel_index i (nx, ny, nz) =
     (int (i div (ny * nz)), int ((i div nz) mod ny), int (i mod nz))"

fun ravel_multi_index_wrap :: "int \<times> int \<times> int \<Rightarrow> mesh \<Rightarrow> nat" where
  "ravel_multi_index_wrap (a, b, c) (nx, ny, nz) =
     (nat (a mod int nx) * ny + nat (b mod int ny)) * nz + nat (c mod int nz)"

fun triple_at :: "int \<times> int \<times> int \<Rightarrow> nat \<Rightarrow> int" where
  "triple_at (a, b, c) r = (if r = 0 then a else if r = 1 then b else c)"

text \<open>
  \<^verbatim>\<open>i_k[:, np.newaxis] + (int(is_plus) * 2 - 1) * i_kp_vec\<close>, for one column.
\<close>

definition second_sign :: "bool \<Rightarrow> int" where
  "second_sign is_plus = (if is_plus then 1 else 0) * 2 - 1"

fun add_scaled :: "int \<times> int \<times> int \<Rightarrow> int \<Rightarrow> int \<times> int \<times> int \<Rightarrow> int \<times> int \<times> int" where
  "add_scaled (a, b, c) s (a', b', c') = (a + s * a', b + s * b', c + s * c')"

text \<open>
  \<^verbatim>\<open>calculate_broadening\<close> for one velocity difference: \<^verbatim>\<open>cellinv / k_size\<close> divides
  column \<open>c\<close> by the mesh's dimension \<open>c\<close>; \<^verbatim>\<open>tensordot\<close> contracts the coordinate
  with the second index of \<^verbatim>\<open>delta_k\<close>.
\<close>

definition calculate_broadening :: "(nat \<Rightarrow> real) \<Rightarrow> (nat \<Rightarrow> nat \<Rightarrow> real) \<Rightarrow> mesh \<Rightarrow> real" where
  "calculate_broadening velocity cellinv k_size =
     (let delta_k = (\<lambda>r c. cellinv r c / real (mesh_at k_size c));
          base_sigma = (\<Sum>r<3. (\<Sum>c<3. velocity c * delta_k r c) ^ 2)
      in sqrt (base_sigma / 6))"

text \<open>
  \<^verbatim>\<open>sigma_small\<close> is the fixed width or the tensor of adaptive widths, told apart by
  \<^verbatim>\<open>np.array(sigma_small).size == 1\<close>.
\<close>

datatype sigma = Fixed real | Tensor "nat \<Rightarrow> nat \<Rightarrow> nat \<Rightarrow> real"

fun sigma_at :: "sigma \<Rightarrow> nat \<Rightarrow> nat \<Rightarrow> nat \<Rightarrow> real" where
  "sigma_at (Fixed s) i mup mupp = s"
| "sigma_at (Tensor t) i mup mupp = t i mup mupp"

type_synonym field = "nat \<Rightarrow> nat \<Rightarrow> real"

type_synonym broadening = "real list \<Rightarrow> width \<Rightarrow> error + real list"

text \<open>
  The six arrays \<^verbatim>\<open>calculate_single_gamma\<close> returns, one entry per surviving triplet,
  under the names its caller unpacks them to.
\<close>

record gamma_out =
  index_kp_out :: "nat list"
  mup_out :: "nat list"
  index_kpp_out :: "nat list"
  mupp_out :: "nat list"
  pot_times_dirac :: "real list"
  dirac :: "real list"

text \<open>
  Arrays read only inside their shape are functions of their indices; the shape
  (\<open>n_replicas\<close>, \<open>n_modes\<close>) comes with them. \<open>omegas_difference\<close> and \<open>condition\<close> are
  the dense arrays of the source at one position \<open>(i, mup, mupp)\<close>; \<open>i\<close> is a position
  in \<^verbatim>\<open>index_kp_full\<close>.
\<close>

definition omegas_difference ::
  "bool \<Rightarrow> nat \<Rightarrow> nat \<Rightarrow> nat list \<Rightarrow> field \<Rightarrow> nat list \<Rightarrow> nat \<Rightarrow> nat \<Rightarrow> nat \<Rightarrow> real" where
  "omegas_difference is_plus index_k mu index_kp_full omegas kpp_mapping i mup mupp =
     \<bar>omegas index_k mu + real_of_int (second_sign is_plus) * omegas (index_kp_full ! i) mup
        - omegas (kpp_mapping ! i) mupp\<bar>"

definition condition ::
  "bool \<Rightarrow> nat \<Rightarrow> nat \<Rightarrow> nat list \<Rightarrow> field \<Rightarrow> real \<Rightarrow> field \<Rightarrow> nat list \<Rightarrow> sigma
     \<Rightarrow> nat \<Rightarrow> nat \<Rightarrow> nat \<Rightarrow> bool" where
  "condition is_plus index_k mu index_kp_full frequencies frequencies_threshold omegas
       kpp_mapping sigma_small i mup mupp =
     (omegas_difference is_plus index_k mu index_kp_full omegas kpp_mapping i mup mupp
          < real DELTA_THRESHOLD * 2 * pi * sigma_at sigma_small i mup mupp
      \<and> frequencies (index_kp_full ! i) mup > frequencies_threshold
      \<and> frequencies (kpp_mapping ! i) mupp > frequencies_threshold)"

text \<open>\<^verbatim>\<open>np.array(np.where(condition)).T\<close>: the positions that pass, in row-major order.\<close>

definition interactions ::
  "nat \<Rightarrow> bool \<Rightarrow> nat \<Rightarrow> nat \<Rightarrow> nat list \<Rightarrow> field \<Rightarrow> real \<Rightarrow> field \<Rightarrow> nat list \<Rightarrow> sigma
     \<Rightarrow> (nat \<times> nat \<times> nat) list" where
  "interactions n_modes is_plus index_k mu index_kp_full frequencies frequencies_threshold
       omegas kpp_mapping sigma_small =
     filter (\<lambda>(i, mup, mupp). condition is_plus index_k mu index_kp_full frequencies
                frequencies_threshold omegas kpp_mapping sigma_small i mup mupp)
       (List.product [0..<length index_kp_full] (List.product [0..<n_modes] [0..<n_modes]))"

text \<open>
  The contraction \<^verbatim>\<open>'litj,kni,kl,kmj,kt->knm'\<close> of the projected potential with the two
  eigenvector and phase-factor fields.
\<close>

definition contract ::
  "nat \<Rightarrow> nat \<Rightarrow> (nat \<Rightarrow> nat \<Rightarrow> nat \<Rightarrow> nat \<Rightarrow> complex) \<Rightarrow> (nat \<Rightarrow> nat \<Rightarrow> nat \<Rightarrow> complex)
     \<Rightarrow> (nat \<Rightarrow> nat \<Rightarrow> complex) \<Rightarrow> (nat \<Rightarrow> nat \<Rightarrow> nat \<Rightarrow> complex) \<Rightarrow> (nat \<Rightarrow> nat \<Rightarrow> complex)
     \<Rightarrow> nat \<Rightarrow> nat \<Rightarrow> nat \<Rightarrow> complex" where
  "contract n_replicas n_modes scaled_potential first_evect first_chi second_evect second_chi k n m =
     (\<Sum>l<n_replicas. \<Sum>i<n_modes. \<Sum>t<n_replicas. \<Sum>j<n_modes.
        scaled_potential l i t j * first_evect k n i * first_chi k l
          * second_evect k m j * second_chi k t)"

text \<open>
  The in-place product \<^verbatim>\<open>dirac_delta *= ...\<close>: the kernel's values must have the shape of
  \<^verbatim>\<open>dirac_delta\<close> or a single entry.
\<close>

definition imul :: "real list \<Rightarrow> real list \<Rightarrow> error + real list" where
  "imul xs ys =
     (if length ys = length xs then Inr (map2 (*) xs ys)
      else if length ys = 1 then Inr (map (\<lambda>x. x * hd ys) xs)
      else Inl ValueError)"

definition gammatothz :: "units \<Rightarrow> real" where
  "gammatothz U = 10 ^ 11 * mol U * EVTOTENJOVERMOL U ^ 2"

text \<open>
  The statistical weight of a triplet divided by the two partner frequencies, the energy
  mismatches handed to the kernel, and the widths handed to it. The partner \<^verbatim>\<open>kp\<close> is
  read at the position \<open>i\<close> itself.
\<close>

definition weight :: "bool \<Rightarrow> field \<Rightarrow> field \<Rightarrow> nat list \<Rightarrow> nat \<times> nat \<times> nat \<Rightarrow> real" where
  "weight is_plus density omegas kpp_mapping t =
     (case t of (i, mup, mupp) \<Rightarrow>
        (if is_plus then density i mup - density (kpp_mapping ! i) mupp
         else 5 / 10 * (1 + density i mup + density (kpp_mapping ! i) mupp))
          / (omegas i mup * omegas (kpp_mapping ! i) mupp))"

definition differences ::
  "bool \<Rightarrow> nat \<Rightarrow> nat \<Rightarrow> nat list \<Rightarrow> field \<Rightarrow> nat list \<Rightarrow> (nat \<times> nat \<times> nat) list \<Rightarrow> real list" where
  "differences is_plus index_k mu index_kp_full omegas kpp_mapping triplets =
     map (\<lambda>(i, mup, mupp).
            omegas_difference is_plus index_k mu index_kp_full omegas kpp_mapping i mup mupp) triplets"

definition widths :: "sigma \<Rightarrow> (nat \<times> nat \<times> nat) list \<Rightarrow> width" where
  "widths sigma_small triplets =
     (case sigma_small of
        Fixed s \<Rightarrow> Scalar (2 * pi * s)
      | Tensor t \<Rightarrow> Array (map (\<lambda>(i, mup, mupp). 2 * pi * t i mup mupp) triplets))"

text \<open>
  \<^verbatim>\<open>calculate_single_gamma\<close>. The arguments follow the source's order, after the units
  and the two shapes. The result is \<open>None\<close> where the source falls off its end (no
  triplet passes). The two index arrays have one entry per mesh point; arrays of different
  lengths do not broadcast.
\<close>

definition calculate_single_gamma ::
  "units \<Rightarrow> nat \<Rightarrow> nat \<Rightarrow> bool \<Rightarrow> nat \<Rightarrow> nat \<Rightarrow> nat list \<Rightarrow> field \<Rightarrow> field \<Rightarrow> nat
     \<Rightarrow> (nat \<Rightarrow> nat \<Rightarrow> nat \<Rightarrow> complex) \<Rightarrow> (nat \<Rightarrow> nat \<Rightarrow> nat \<Rightarrow> complex)
     \<Rightarrow> (nat \<Rightarrow> nat \<Rightarrow> complex) \<Rightarrow> (nat \<Rightarrow> nat \<Rightarrow> complex)
     \<Rightarrow> (nat \<Rightarrow> nat \<Rightarrow> nat \<Rightarrow> nat \<Rightarrow> complex) \<Rightarrow> sigma \<Rightarrow> real \<Rightarrow> field \<Rightarrow> nat list \<Rightarrow> sigma
     \<Rightarrow> broadening \<Rightarrow> error + gamma_out option" where
  "calculate_single_gamma U n_replicas n_modes is_plus index_k mu index_kp_full frequencies
       density nptk first_evect second_evect first_chi second_chi scaled_potential sigma_in
       frequencies_threshold omegas kpp_mapping sigma_small broadening_function =
     (if length kpp_mapping \<noteq> length index_kp_full then Inl ValueError
      else
        let triplets = interactions n_modes is_plus index_k mu index_kp_full frequencies
                      frequencies_threshold omegas kpp_mapping sigma_small
        in if triplets = [] then Inr None
           else
             let kp_vec = map (\<lambda>(i, mup, mupp). i) triplets;
                 kpp_vec = map (\<lambda>i. kpp_mapping ! i) kp_vec;
                 mups = map (\<lambda>(i, mup, mupp). mup) triplets;
                 mupps = map (\<lambda>(i, mup, mupp). mupp) triplets;
                 dirac_delta = map (weight is_plus density omegas kpp_mapping) triplets
             in case broadening_function
                       (differences is_plus index_k mu index_kp_full omegas kpp_mapping triplets)
                       (widths sigma_small triplets) of
                  Inl e \<Rightarrow> Inl e
                | Inr kern \<Rightarrow>
                   (case imul dirac_delta kern of
                      Inl e \<Rightarrow> Inl e
                    | Inr dirac_delta \<Rightarrow>
                       let potential = map (\<lambda>(i, mup, mupp).
                             contract n_replicas n_modes scaled_potential first_evect
                               first_chi second_evect second_chi i mup mupp) triplets;
                           ptd = map2 (\<lambda>p d. (cmod p) ^ 2 * d) potential dirac_delta
                       in Inr (Some \<lparr>index_kp_out = kp_vec, mup_out = mups,
                             index_kpp_out = kpp_vec, mupp_out = mupps,
                             pot_times_dirac =
                               map (\<lambda>x. hbar U * pi / 4 * x / omegas index_k mu / real nptk
                                           * gammatothz U) ptd,
                             dirac = dirac_delta\<rparr>)))"

section \<open>The occupations accessor\<close>

text \<open>
  The attributes \<^verbatim>\<open>calculate_gamma\<close> reads from \<^verbatim>\<open>self.phonons\<close> under these names.
\<close>

record mode_data =
  frequencies :: field
  frequency_threshold :: real
  temperature :: real
  is_classic :: bool

text \<open>
  An instance of \<^verbatim>\<open>AnharmonicController\<close> has the four attributes its constructor sets,
  \<^verbatim>\<open>phonons\<close>, \<^verbatim>\<open>folder_name\<close>, \<^verbatim>\<open>_occupations\<close> and \<^verbatim>\<open>_c_v\<close>, and the properties and
  the method of its class. The record holds the two the accessor of the occupations reads
  and writes: the folder and the in-memory cache \<^verbatim>\<open>_occupations\<close>. The disk is the map
  from paths to the arrays \<^verbatim>\<open>np.load\<close> finds there (\<open>None\<close> for a missing file) and the
  set of directories that exist: \<^verbatim>\<open>np.save\<close> into a missing directory raises.
\<close>

record controller =
  folder_name :: string
  cached_occupations :: "field option"

record disk =
  files :: "string \<Rightarrow> field option"
  folders :: "string set"

definition OCCUPATIONS_FILE :: string where
  "OCCUPATIONS_FILE = ''occupations.npy''"

definition occupations_setter ::
  "controller \<Rightarrow> disk \<Rightarrow> field \<Rightarrow> (error + unit) \<times> controller \<times> disk" where
  "occupations_setter self d new_occupations =
     (let folder = folder_name self
      in if folder \<in> folders d then
           (Inr (), self\<lparr>cached_occupations := Some new_occupations\<rparr>,
            d\<lparr>files := (files d)(folder @ OCCUPATIONS_FILE := Some new_occupations)\<rparr>)
         else (Inl FileNotFoundError, self, d))"

text \<open>
  \<^verbatim>\<open>frequencies\<close>, \<^verbatim>\<open>temperature\<close>, \<^verbatim>\<open>frequency_threshold\<close> and \<^verbatim>\<open>is_classic\<close> are
  attributes of \<^verbatim>\<open>self.phonons\<close>; the instance itself has none of them, and neither the
  class nor anything else in the module defines them. Reading one from \<^verbatim>\<open>self\<close> is a
  failed attribute lookup.
\<close>

definition missing_attribute :: "controller \<Rightarrow> string \<Rightarrow> error + 'a" where
  "missing_attribute self name = Inl AttributeError"

text \<open>
  The accessor: the value it returns or the exception it raises, with the controller and
  the disk as it leaves them. The first \<^verbatim>\<open>if\<close> loads the file when nothing is in memory
  (a missing file is caught and printed); the second computes the array when there is
  still nothing, starting with \<^verbatim>\<open>frequencies = self.frequencies\<close>.
\<close>

definition occupations_getter ::
  "units \<Rightarrow> controller \<Rightarrow> disk \<Rightarrow> (error + field) \<times> controller \<times> disk" where
  "occupations_getter U self d =
     (let self1 = (if cached_occupations self = None
                   then (case files d (folder_name self @ OCCUPATIONS_FILE) of
                           Some a \<Rightarrow> self\<lparr>cached_occupations := Some a\<rparr>
                         | None \<Rightarrow> self)
                   else self)
      in if cached_occupations self1 = None then
           (case missing_attribute self1 ''frequencies'' of
              Inl e \<Rightarrow> (Inl e, self1, d)
            | Inr self_frequencies \<Rightarrow>
           (case missing_attribute self1 ''temperature'' of
              Inl e \<Rightarrow> (Inl e, self1, d)
            | Inr self_temperature \<Rightarrow>
           (case missing_attribute self1 ''frequency_threshold'' of
              Inl e \<Rightarrow> (Inl e, self1, d)
            | Inr self_frequency_threshold \<Rightarrow>
           (case missing_attribute self1 ''is_classic'' of
              Inl e \<Rightarrow> (Inl e, self1, d)
            | Inr self_is_classic \<Rightarrow>
               (let temp = self_temperature * KELVINTOTHZ U;
                    physical_modes = (\<lambda>k mu. self_frequencies k mu > self_frequency_threshold);
                    density = (\<lambda>k mu :: nat.
                       if physical_modes k mu then
                         (if self_is_classic = False
                          then 1 / (exp (self_frequencies k mu / temp) - 1)
                          else temp / self_frequencies k mu)
                       else 0)
                in case occupations_setter self1 d density of
                     (Inl e, self2, d2) \<Rightarrow> (Inl e, self2, d2)
                   | (Inr u, self2, d2) \<Rightarrow> (Inr (the (cached_occupations self2)), self2, d2))))))
         else (Inr (the (cached_occupations self1)), self1, d))"

section \<open>The accumulation loop with its progress files\<close>

record phonons = mode_data +
  kpts :: mesh
  n_particles :: nat
  masses :: "nat \<Rightarrow> real"
  velocities :: "nat \<Rightarrow> nat \<Rightarrow> nat \<Rightarrow> real"
  occupations :: field
  eigenvectors :: "nat \<Rightarrow> nat \<Rightarrow> nat \<Rightarrow> complex"
  n_replicas :: nat
  dxij :: "nat \<Rightarrow> nat \<Rightarrow> real"
  third_order :: "nat \<Rightarrow> nat \<Rightarrow> nat \<Rightarrow> nat \<Rightarrow> nat \<Rightarrow> real"
  sigma_in :: "real option"
  broadening_shape :: string
  cell_inv :: "nat \<Rightarrow> nat \<Rightarrow> real"

text \<open>
  \<open>n_replicas\<close> is the number of rows of \<^verbatim>\<open>list_of_replicas\<close>, \<open>dxij\<close> what
  \<^verbatim>\<open>apply_boundary_with_cell\<close> returns, \<open>cell_inv\<close> the inverse of the cell and
  \<open>third_order\<close> the sparse tensor in the shape it is reshaped to after its first index
  is contracted: all come from code outside this module.
\<close>

definition n_modes :: "phonons \<Rightarrow> nat" where
  "n_modes ph = n_particles ph * 3"

definition nptk :: "phonons \<Rightarrow> nat" where
  "nptk ph = prod_mesh (kpts ph)"

text \<open>
  Modelled from the spec: the attribute \<^verbatim>\<open>n_phonons\<close> of the phonons object, whose class
  is not in this module; the number of flat mode indices
  \<open>nu = wavevector_index * n_modes + branch_index\<close>.
\<close>

definition n_phonons :: "phonons \<Rightarrow> nat" where
  "n_phonons ph = nptk ph * n_modes ph"

definition omegas :: "phonons \<Rightarrow> field" where
  "omegas ph = (\<lambda>k mu. 2 * pi * frequencies ph k mu)"

definition is_amorphous :: "phonons \<Rightarrow> bool" where
  "is_amorphous ph = (kpts ph = (1, 1, 1))"

text \<open>One row of a progress file, and the state \<^verbatim>\<open>calculate_gamma\<close> changes.\<close>

record log_line =
  read_nu :: nat
  read_nup :: nat
  read_nupp :: nat
  val :: real
  value_ps :: real

record gamma_state =
  gamma :: "real list"
  ps :: "real list"
  gamma_tensor :: "real list list option"
  progress :: "bool \<Rightarrow> log_line list option"

type_synonym result = "error \<times> gamma_state + gamma_state"

definition bind_result :: "result \<Rightarrow> (gamma_state \<Rightarrow> result) \<Rightarrow> result" where
  "bind_result r f = (case r of Inl e \<Rightarrow> Inl e | Inr st \<Rightarrow> f st)"

fun fold_result :: "('a \<Rightarrow> gamma_state \<Rightarrow> result) \<Rightarrow> 'a list \<Rightarrow> gamma_state \<Rightarrow> result" where
  "fold_result f [] st = Inr st"
| "fold_result f (x # xs) st = bind_result (f x st) (fold_result f xs)"

text \<open>The state a run ends in, whether it returns or raises.\<close>

fun final_state :: "result \<Rightarrow> gamma_state" where
  "final_state (Inl (e, st)) = st"
| "final_state (Inr st) = st"

definition log_of :: "gamma_state \<Rightarrow> bool \<Rightarrow> log_line list" where
  "log_of st is_plus = (case progress st is_plus of None \<Rightarrow> [] | Some ls \<Rightarrow> ls)"

text \<open>
  \<^verbatim>\<open>_gamma[i] += v\<close>, \<^verbatim>\<open>_ps[i] += v\<close> and \<^verbatim>\<open>gamma_tensor[i, j] += v\<close>; an index
  past the end raises.
\<close>

definition gamma_add :: "nat \<Rightarrow> real \<Rightarrow> gamma_state \<Rightarrow> result" where
  "gamma_add i v st =
     (if i < length (gamma st) then Inr (st\<lparr>gamma := (gamma st)[i := gamma st ! i + v]\<rparr>)
      else Inl (IndexError, st))"

definition ps_add :: "nat \<Rightarrow> real \<Rightarrow> gamma_state \<Rightarrow> result" where
  "ps_add i v st =
     (if i < length (ps st) then Inr (st\<lparr>ps := (ps st)[i := ps st ! i + v]\<rparr>)
      else Inl (IndexError, st))"

definition tensor_add :: "nat \<Rightarrow> nat \<Rightarrow> real \<Rightarrow> gamma_state \<Rightarrow> result" where
  "tensor_add i j v st =
     (case gamma_tensor st of
        None \<Rightarrow> Inl (TypeError, st)
      | Some t \<Rightarrow>
          if i < length t \<and> j < length (t ! i)
          then Inr (st\<lparr>gamma_tensor := Some (t[i := (t ! i)[j := t ! i ! j + v]])\<rparr>)
          else Inl (IndexError, st))"

text \<open>
  The two tensor updates of one triplet: a plus process subtracts at the first partner
  and adds at the second, a minus process adds at both.
\<close>

definition tensor_update :: "bool \<Rightarrow> bool \<Rightarrow> nat \<Rightarrow> nat \<Rightarrow> nat \<Rightarrow> real \<Rightarrow> gamma_state \<Rightarrow> result" where
  "tensor_update is_gamma_tensor_enabled is_plus nu_i nup_i nupp_i v st =
     (if is_gamma_tensor_enabled then
        (if is_plus
         then bind_result (tensor_add nu_i nup_i (- v) st) (tensor_add nu_i nupp_i v)
         else bind_result (tensor_add nu_i nup_i v st) (tensor_add nu_i nupp_i v))
      else Inr st)"

text \<open>Replaying one line of a progress file, and the whole file.\<close>

definition replay_line :: "bool \<Rightarrow> bool \<Rightarrow> log_line \<Rightarrow> gamma_state \<Rightarrow> result" where
  "replay_line is_gamma_tensor_enabled is_plus l st =
     bind_result (gamma_add (read_nu l) (val l) st) (\<lambda>st.
     bind_result (ps_add (read_nu l) (value_ps l) st)
       (tensor_update is_gamma_tensor_enabled is_plus (read_nu l) (read_nup l) (read_nupp l) (val l)))"

definition replay :: "bool \<Rightarrow> bool \<Rightarrow> gamma_state \<Rightarrow> result" where
  "replay is_gamma_tensor_enabled is_plus st =
     (case progress st is_plus of
        None \<Rightarrow> Inr st
      | Some ls \<Rightarrow> fold_result (replay_line is_gamma_tensor_enabled is_plus) ls st)"

text \<open>\<^verbatim>\<open>read_nu + 1\<close> after the replay: \<^verbatim>\<open>read_nu\<close> is \<open>-1\<close> or the last line's.\<close>

definition resume_index :: "log_line list \<Rightarrow> nat" where
  "resume_index ls = (if ls = [] then 0 else read_nu (last ls) + 1)"


text \<open>
  The eigenvectors divided by the square root of the atom's mass, with rows indexed by the
  flat mode; the phase factors \<^verbatim>\<open>chi\<close> of a mesh that is not \<open>(1, 1, 1)\<close>; the
  potential projected on the bra mode.
\<close>

definition rescaled_eigenvectors :: "phonons \<Rightarrow> nat \<Rightarrow> nat \<Rightarrow> complex" where
  "rescaled_eigenvectors ph nu_i a =
     eigenvectors ph (nu_i div n_modes ph) a (nu_i mod n_modes ph)
       / complex_of_real (sqrt (masses ph (a div 3)))"

definition chi :: "phonons \<Rightarrow> nat \<Rightarrow> nat \<Rightarrow> complex" where
  "chi ph index_k l =
     (let i_k = unravel_index index_k (kpts ph);
          k_point = (\<lambda>c. real_of_int (triple_at i_k c) / real (mesh_at (kpts ph) c));
          rlattvec = (\<lambda>r c. cell_inv ph r c * 2 * pi);
          realq = (\<lambda>r. \<Sum>c<3. rlattvec r c * k_point c)
      in exp (\<i> * complex_of_real (\<Sum>c<3. dxij ph l c * realq c)))"

definition scaled_potential :: "phonons \<Rightarrow> nat \<Rightarrow> nat \<Rightarrow> nat \<Rightarrow> nat \<Rightarrow> nat \<Rightarrow> complex" where
  "scaled_potential ph nu_single l i t j =
     (\<Sum>a<n_modes ph. complex_of_real (third_order ph a l i t j) * rescaled_eigenvectors ph nu_single a)"

definition first_evect :: "phonons \<Rightarrow> bool \<Rightarrow> nat \<Rightarrow> nat \<Rightarrow> nat \<Rightarrow> complex" where
  "first_evect ph is_plus k n i =
     (if is_plus then rescaled_eigenvectors ph (k * n_modes ph + n) i
      else cnj (rescaled_eigenvectors ph (k * n_modes ph + n) i))"

definition second_evect :: "phonons \<Rightarrow> nat list \<Rightarrow> nat \<Rightarrow> nat \<Rightarrow> nat \<Rightarrow> complex" where
  "second_evect ph index_kpp_vec k m j =
     cnj (rescaled_eigenvectors ph ((index_kpp_vec ! k) * n_modes ph + m) j)"

definition first_chi :: "phonons \<Rightarrow> bool \<Rightarrow> nat \<Rightarrow> nat \<Rightarrow> complex" where
  "first_chi ph is_plus k l = (if is_plus then chi ph k l else cnj (chi ph k l))"

definition second_chi :: "phonons \<Rightarrow> nat list \<Rightarrow> nat \<Rightarrow> nat \<Rightarrow> complex" where
  "second_chi ph index_kpp_vec k t = cnj (chi ph (index_kpp_vec ! k) t)"

text \<open>
  The \<^verbatim>\<open>if\<close>/\<^verbatim>\<open>elif\<close> chain on the kernel's name has no \<^verbatim>\<open>else\<close>: under any other
  name the local variable \<^verbatim>\<open>broadening_function\<close> stays unbound (\<open>None\<close>), and reading
  it raises.
\<close>

definition select_broadening :: "string \<Rightarrow> broadening option" where
  "select_broadening broadening =
     (if broadening = ''gauss'' then Some gaussian_delta
      else if broadening = ''lorentz'' then Some lorentzian_delta
      else if broadening = ''triangle'' then Some triangular_delta
      else None)"

definition index_kpp_of :: "phonons \<Rightarrow> bool \<Rightarrow> nat \<Rightarrow> nat list" where
  "index_kpp_of ph is_plus index_k =
     (let i_k = unravel_index index_k (kpts ph)
      in map (\<lambda>p. ravel_multi_index_wrap
                    (add_scaled i_k (second_sign is_plus) (unravel_index p (kpts ph))) (kpts ph))
           [0..<nptk ph])"

definition sigma_small_of :: "phonons \<Rightarrow> nat list \<Rightarrow> sigma" where
  "sigma_small_of ph index_kpp_vec =
     (case sigma_in ph of
        None \<Rightarrow> Tensor (\<lambda>p mup mupp.
          calculate_broadening (\<lambda>c. velocities ph p mup c - velocities ph (index_kpp_vec ! p) mupp c)
            (cell_inv ph) (kpts ph))
      | Some s \<Rightarrow> Fixed s)"

text \<open>
  What follows \<^verbatim>\<open>if gamma_out:\<close>: the two totals of the bra mode, the tensor updates
  triplet by triplet, and the rows \<^verbatim>\<open>np.savetxt\<close> appends to the progress file.
  \<open>rows_of\<close> is the array \<^verbatim>\<open>np.vstack([nu_vec, nup_vec, nupp_vec, pot_times_dirac, dirac]).T\<close>
  with the numbers as they are in memory.
\<close>

definition ravel_mode :: "nat \<Rightarrow> nat \<Rightarrow> nat \<Rightarrow> nat" where
  "ravel_mode n k m = k * n + m"

definition rows_of :: "nat \<Rightarrow> nat \<Rightarrow> gamma_out \<Rightarrow> log_line list" where
  "rows_of n nu_single out =
     (let nup_vec = map2 (ravel_mode n) (index_kp_out out) (mup_out out);
          nupp_vec = map2 (ravel_mode n) (index_kpp_out out) (mupp_out out)
      in map (\<lambda>i. \<lparr>read_nu = nu_single, read_nup = nup_vec ! i, read_nupp = nupp_vec ! i,
                    val = pot_times_dirac out ! i, value_ps = dirac out ! i\<rparr>)
           [0..<length nup_vec])"

text \<open>
  The rows are written with \<^verbatim>\<open>fmt='%i %i %i %.8e %.8e'\<close>: the three indices as they are,
  the two numbers in scientific notation with eight digits after the point, that is,
  rounded to nine significant digits, to the nearest and a tie to the even digit. The
  file holds, and a later replay reads, the rounded number.
\<close>

definition round_half_even :: "real \<Rightarrow> int" where
  "round_half_even x =
     (let f = \<lfloor>x\<rfloor>; r = x - of_int f
      in if r < 1 / 2 then f else if 1 / 2 < r then f + 1 else if even f then f else f + 1)"

definition fmt_e8 :: "real \<Rightarrow> real" where
  "fmt_e8 x =
     (if x = 0 then 0
      else let e = \<lfloor>log 10 \<bar>x\<bar>\<rfloor>; unit = 10 powi (e - 8)
           in of_int (round_half_even (x / unit)) * unit)"

definition fmt_row :: "log_line \<Rightarrow> log_line" where
  "fmt_row r = r\<lparr>val := fmt_e8 (val r), value_ps := fmt_e8 (value_ps r)\<rparr>"

definition savetxt :: "bool \<Rightarrow> log_line list \<Rightarrow> gamma_state \<Rightarrow> gamma_state" where
  "savetxt is_plus rows st =
     st\<lparr>progress := (progress st)(is_plus := Some (log_of st is_plus @ map fmt_row rows))\<rparr>"

definition accumulate :: "bool \<Rightarrow> bool \<Rightarrow> nat \<Rightarrow> nat \<Rightarrow> gamma_out \<Rightarrow> gamma_state \<Rightarrow> result" where
  "accumulate is_gamma_tensor_enabled is_plus n nu_single out st =
     (let rows = rows_of n nu_single out
      in bind_result (gamma_add nu_single (sum_list (pot_times_dirac out)) st) (\<lambda>st.
         bind_result (ps_add nu_single (sum_list (dirac out)) st) (\<lambda>st.
         bind_result
           (fold_result (\<lambda>r. tensor_update is_gamma_tensor_enabled is_plus nu_single
                               (read_nup r) (read_nupp r) (val r)) rows st)
           (\<lambda>st. Inr (savetxt is_plus rows st)))))"

text \<open>
  The body of the loop over \<^verbatim>\<open>mu\<close>, after its \<^verbatim>\<open>break\<close>: the progress file is opened
  (created when missing), and a bra mode above the threshold is evaluated.
\<close>

definition open_append :: "bool \<Rightarrow> gamma_state \<Rightarrow> gamma_state" where
  "open_append is_plus st =
     (case progress st is_plus of
        None \<Rightarrow> st\<lparr>progress := (progress st)(is_plus := Some [])\<rparr>
      | Some ls \<Rightarrow> st)"

definition bra_mode_step ::
  "units \<Rightarrow> bool \<Rightarrow> phonons \<Rightarrow> bool \<Rightarrow> nat \<Rightarrow> nat list \<Rightarrow> broadening option \<Rightarrow> sigma \<Rightarrow> nat
     \<Rightarrow> gamma_state \<Rightarrow> result" where
  "bra_mode_step U is_gamma_tensor_enabled ph is_plus index_k index_kpp_vec broadening_function
       sigma_small mu st0 =
     (let nu_single = ravel_mode (n_modes ph) index_k mu;
          st = open_append is_plus st0
      in if frequencies ph index_k mu > frequency_threshold ph then
           (case broadening_function of
              None \<Rightarrow> Inl (UnboundLocalError, st)
            | Some f \<Rightarrow>
               (case calculate_single_gamma U (n_replicas ph) (n_modes ph) is_plus index_k mu
                       [0..<nptk ph] (frequencies ph) (occupations ph) (nptk ph)
                       (first_evect ph is_plus) (second_evect ph index_kpp_vec)
                       (first_chi ph is_plus) (second_chi ph index_kpp_vec)
                       (scaled_potential ph nu_single) sigma_small (frequency_threshold ph)
                       (omegas ph) index_kpp_vec sigma_small f of
                  Inl e \<Rightarrow> Inl (e, st)
                | Inr None \<Rightarrow> Inr st
                | Inr (Some out) \<Rightarrow>
                    accumulate is_gamma_tensor_enabled is_plus (n_modes ph) nu_single out st))
         else Inr st)"

text \<open>
  The loop over \<^verbatim>\<open>mu\<close>. Its first statement is
  \<^verbatim>\<open>if index_k == initial_k and mu < initial_mu: break\<close>, which leaves the loop.
\<close>

fun mu_loop ::
  "units \<Rightarrow> bool \<Rightarrow> phonons \<Rightarrow> bool \<Rightarrow> nat \<Rightarrow> nat \<Rightarrow> nat \<Rightarrow> nat list \<Rightarrow> broadening option
     \<Rightarrow> sigma \<Rightarrow> nat list \<Rightarrow> gamma_state \<Rightarrow> result" where
  "mu_loop U en ph is_plus initial_k initial_mu index_k index_kpp_vec bf sigma_small [] st = Inr st"
| "mu_loop U en ph is_plus initial_k initial_mu index_k index_kpp_vec bf sigma_small (mu # mus) st =
     (if index_k = initial_k \<and> mu < initial_mu then Inr st
      else bind_result
             (bra_mode_step U en ph is_plus index_k index_kpp_vec bf sigma_small mu st)
             (mu_loop U en ph is_plus initial_k initial_mu index_k index_kpp_vec bf sigma_small mus))"

text \<open>
  The body of the loop over \<^verbatim>\<open>index_k\<close>. On the mesh \<open>(1, 1, 1)\<close> \<^verbatim>\<open>chi\<close> is the
  Python integer \<^verbatim>\<open>1\<close>, and \<^verbatim>\<open>chi.conj()\<close> raises.
\<close>

definition index_k_step ::
  "units \<Rightarrow> bool \<Rightarrow> phonons \<Rightarrow> bool \<Rightarrow> nat \<Rightarrow> nat \<Rightarrow> nat \<Rightarrow> gamma_state \<Rightarrow> result" where
  "index_k_step U is_gamma_tensor_enabled ph is_plus initial_k initial_mu index_k st =
     (let index_kpp_vec = index_kpp_of ph is_plus index_k
      in if is_amorphous ph then Inl (AttributeError, st)
         else
           let broadening_function = select_broadening (broadening_shape ph);
               sigma_small = sigma_small_of ph index_kpp_vec
           in mu_loop U is_gamma_tensor_enabled ph is_plus initial_k initial_mu index_k
                index_kpp_vec broadening_function sigma_small [0..<n_modes ph] st)"

text \<open>One pass of \<^verbatim>\<open>for is_plus in [1, 0]\<close>: replay, then resume.\<close>

definition process_pass :: "units \<Rightarrow> bool \<Rightarrow> phonons \<Rightarrow> bool \<Rightarrow> gamma_state \<Rightarrow> result" where
  "process_pass U is_gamma_tensor_enabled ph is_plus st0 =
     bind_result (replay is_gamma_tensor_enabled is_plus st0) (\<lambda>st.
       let start = resume_index (log_of st0 is_plus)
       in if start < nptk ph * n_modes ph then
            (let initial_k = start div n_modes ph;
                 initial_mu = start mod n_modes ph
             in fold_result
                  (index_k_step U is_gamma_tensor_enabled ph is_plus initial_k initial_mu)
                  [initial_k..<nptk ph] st)
          else Inr st)"

definition reset :: "bool \<Rightarrow> phonons \<Rightarrow> gamma_state \<Rightarrow> gamma_state" where
  "reset is_gamma_tensor_enabled ph st =
     st\<lparr>gamma := replicate (n_phonons ph) 0,
        ps := replicate (n_phonons ph) 0,
        gamma_tensor := (if is_gamma_tensor_enabled
                         then Some (replicate (n_phonons ph) (replicate (n_phonons ph) 0))
                         else gamma_tensor st)\<rparr>"

definition calculate_gamma :: "units \<Rightarrow> bool \<Rightarrow> phonons \<Rightarrow> gamma_state \<Rightarrow> result" where
  "calculate_gamma U is_gamma_tensor_enabled ph st =
     bind_result (process_pass U is_gamma_tensor_enabled ph True
                    (reset is_gamma_tensor_enabled ph st))
       (process_pass U is_gamma_tensor_enabled ph False)"

section \<open>Vocabulary of the statements\<close>



section \<open>Concrete inputs\<close>

definition U0 :: units where
  "U0 = \<lparr>hbar = 1, mol = 1 / 1000, J = 1, kB = 1\<rparr>"

text \<open>
  A kernel that is \<open>1\<close> everywhere; a controller with an empty cache and a disk with its
  folder and no file.
\<close>

definition flat_kernel :: broadening where
  "flat_kernel d w = Inr (map (\<lambda>x. 1) d)"

definition out0 :: gamma_out where
  "out0 = \<lparr>index_kp_out = [0], mup_out = [0], index_kpp_out = [0], mupp_out = [0],
            pot_times_dirac = [0], dirac = [0]\<rparr>"

definition self0 :: controller where
  "self0 = \<lparr>folder_name = ''si/300/classic/'', cached_occupations = None\<rparr>"

definition disk0 :: disk where
  "disk0 = \<lparr>files = (\<lambda>p. None), folders = {''si/300/classic/''}\<rparr>"

text \<open>
  Angular frequencies \<open>1/2\<close> and \<open>5/2\<close> on the two branches of a single wavevector, and an
  adaptive width that is \<open>1 / (2 * pi)\<close> for every triplet.
\<close>

definition om1 :: field where
  "om1 k mu = (if mu = 0 then 1 / 2 else 5 / 2)"

definition adaptive1 :: sigma where
  "adaptive1 = Tensor (\<lambda>i mup mupp. 1 / (2 * pi))"

text \<open>
  Quasi-momentum conservation of a row of a progress file, in the words of the
  specification. The wavevector index of a flat mode index is its quotient by the number
  of branches. On the mesh \<open>(nx, ny, nz)\<close> the point \<open>(x, y, z)\<close> has the row-major index
  \<open>(x * ny + y) * nz + z\<close>. The row conserves quasi-momentum when its three wavevector
  indices are those of points \<open>q\<close>, \<open>q'\<close> and \<open>q''\<close> of the mesh with \<open>q'' = q + q'\<close>
  (plus) or \<open>q'' = q - q'\<close> (minus), every component taken modulo its dimension.
\<close>

definition momentum_conserved :: "phonons \<Rightarrow> bool \<Rightarrow> log_line \<Rightarrow> bool" where
  "momentum_conserved ph is_plus r =
     (case kpts ph of (nx, ny, nz) \<Rightarrow>
        \<exists>x<nx. \<exists>y<ny. \<exists>z<nz. \<exists>x'<nx. \<exists>y'<ny. \<exists>z'<nz.
          read_nu r div n_modes ph = (x * ny + y) * nz + z
        \<and> read_nup r div n_modes ph = (x' * ny + y') * nz + z'
        \<and> read_nupp r div n_modes ph =
            (if is_plus
             then (((x + x') mod nx) * ny + (y + y') mod ny) * nz + (z + z') mod nz
             else (((x + nx - x') mod nx) * ny + (y + ny - y') mod ny) * nz + (z + nz - z') mod nz))"

text \<open>The sum of one column over the rows of a bra mode.\<close>

definition total :: "(log_line \<Rightarrow> real) \<Rightarrow> nat \<Rightarrow> log_line list \<Rightarrow> real" where
  "total f nu_i ls = sum_list (map f (filter (\<lambda>l. read_nu l = nu_i) ls))"

text \<open>
  A relation between the state before a step and the state after it holds of a result:
  of the state returned, and, when \<open>strict\<close>, also of the state an exception leaves.
\<close>

definition holds :: "bool \<Rightarrow> (gamma_state \<Rightarrow> gamma_state \<Rightarrow> bool) \<Rightarrow> gamma_state \<Rightarrow> result \<Rightarrow> bool" where
  "holds strict R st r =
     (case r of Inr st' \<Rightarrow> R st st' | Inl (e, st') \<Rightarrow> strict \<longrightarrow> R st st')"

definition appended :: "phonons \<Rightarrow> gamma_state \<Rightarrow> gamma_state \<Rightarrow> bool" where
  "appended ph st st' =
     (\<forall>b. \<exists>new. log_of st' b = log_of st b @ new \<and> list_all (momentum_conserved ph b) new)"

text \<open>
  A step with the tensor option disabled simulates the step with the option enabled: where
  the enabled step returns, the disabled one returns the same state but for the tensor,
  which keeps whatever value it had.
\<close>

definition simulates :: "(gamma_state \<Rightarrow> result) \<Rightarrow> (gamma_state \<Rightarrow> result) \<Rightarrow> bool" where
  "simulates f g =
     (\<forall>s s' t. f s = Inr s' \<longrightarrow> g (s\<lparr>gamma_tensor := t\<rparr>) = Inr (s'\<lparr>gamma_tensor := t\<rparr>))"

definition tensor_only :: "gamma_state \<Rightarrow> gamma_state \<Rightarrow> bool" where
  "tensor_only st st' = (\<exists>t. st' = st\<lparr>gamma_tensor := t\<rparr>)"


text \<open>
  The bra modes a pass goes through, given the progress file it finds. The pass resumes at
  the flat index after the last row's; it goes through the wavevectors from that of the
  resume position on, and through the branches of that first wavevector only when the
  resume position is its first branch.
\<close>

definition reached :: "phonons \<Rightarrow> log_line list \<Rightarrow> nat \<Rightarrow> nat \<Rightarrow> bool" where
  "reached ph ls index_k mu =
     (let start = resume_index ls;
          initial_k = start div n_modes ph;
          initial_mu = start mod n_modes ph
      in start < nptk ph * n_modes ph \<and> index_k < nptk ph \<and> mu < n_modes ph
         \<and> (initial_k < index_k \<or> (index_k = initial_k \<and> initial_mu = 0)))"

text \<open>Both per-mode arrays and both progress files are as they were.\<close>

definition untouched :: "gamma_state \<Rightarrow> gamma_state \<Rightarrow> bool" where
  "untouched st st' =
     (gamma st' = gamma st \<and> ps st' = ps st \<and> log_of st' True = log_of st True
      \<and> log_of st' False = log_of st False)"

text \<open>Relations between the state before a step and the state after it.\<close>

abbreviation (input) same_progress :: "gamma_state \<Rightarrow> gamma_state \<Rightarrow> bool" where
  "same_progress \<equiv> (\<lambda>s s'. progress s' = progress s)"

abbreviation (input) same_logs :: "gamma_state \<Rightarrow> gamma_state \<Rightarrow> bool" where
  "same_logs \<equiv> (\<lambda>s s'. \<forall>b. log_of s' b = log_of s b)"

abbreviation (input) same_tensor :: "gamma_state \<Rightarrow> gamma_state \<Rightarrow> bool" where
  "same_tensor \<equiv> (\<lambda>s s'. gamma_tensor s' = gamma_tensor s)"

abbreviation (input) same_lengths :: "gamma_state \<Rightarrow> gamma_state \<Rightarrow> bool" where
  "same_lengths \<equiv> (\<lambda>s s'. length (gamma s') = length (gamma s) \<and> length (ps s') = length (ps s))"

text \<open>A result that is not the error of an unbound local variable.\<close>

definition unbound_free :: "result \<Rightarrow> bool" where
  "unbound_free r = (case r of Inl (e, s) \<Rightarrow> e \<noteq> UnboundLocalError | Inr s \<Rightarrow> True)"

text \<open>
  A system on the mesh \<open>(2, 1, 1)\<close> with one atom (three branches). Two modes of the
  first wavevector are above the threshold, at \<open>1\<close> and \<open>2\<close>; eigenvectors, masses and
  the third-order tensor are all \<open>1\<close>, the replica displacements \<open>0\<close>; the width is
  fixed at \<open>3/4\<close> and the kernel is the Lorentzian. \<open>st_A0\<close> is the state of a first
  run: no progress file.
\<close>

definition ph_A :: phonons where
  "ph_A = \<lparr>frequencies = (\<lambda>k mu. if k = 0 \<and> mu = 0 then 1 else if k = 0 \<and> mu = 1 then 2 else 0),
            frequency_threshold = 1 / 2, temperature = 300, is_classic = False,
            kpts = (2, 1, 1), n_particles = 1, masses = (\<lambda>a. 1),
            velocities = (\<lambda>k mu c. 0),
            occupations = (\<lambda>k mu. if k = 0 \<and> mu = 0 then 2 else 1),
            eigenvectors = (\<lambda>k a n. 1), n_replicas = 1, dxij = (\<lambda>l c. 0),
            third_order = (\<lambda>a l i t j. 1), sigma_in = Some (3 / 4),
            broadening_shape = ''lorentz'', cell_inv = (\<lambda>r c. if r = c then 1 else 0)\<rparr>"

definition st_A0 :: gamma_state where
  "st_A0 = \<lparr>gamma = [], ps = [], gamma_tensor = None, progress = (\<lambda>b. None)\<rparr>"

text \<open>
  The same system with its two modes above the threshold at different wavevectors, at
  \<open>1\<close> and \<open>3\<close>.
\<close>

definition ph_B :: phonons where
  "ph_B = ph_A\<lparr>frequencies := (\<lambda>k mu. if mu = 0 then (if k = 0 then 1 else 3) else 0)\<rparr>"

text \<open>The two systems under a kernel name that is not recognised, and one with no mode
  above the threshold.\<close>

definition ph_foo :: phonons where
  "ph_foo = ph_A\<lparr>broadening_shape := ''foo''\<rparr>"

definition ph_quiet :: phonons where
  "ph_quiet = ph_A\<lparr>frequencies := (\<lambda>k mu. 0), broadening_shape := ''foo''\<rparr>"

text \<open>A row of a progress file from its five fields.\<close>

definition row :: "nat \<Rightarrow> nat \<Rightarrow> nat \<Rightarrow> real \<Rightarrow> real \<Rightarrow> log_line" where
  "row a b c v w = \<lparr>read_nu = a, read_nup = b, read_nupp = c, val = v, value_ps = w\<rparr>"

text \<open>
  The two progress files a first, uninterrupted run of \<open>ph_A\<close> leaves, and the state it
  returns. Bra mode \<open>0\<close> has three plus rows and one minus row, bra mode \<open>1\<close> one plus
  row and three minus rows. The files hold the rows as \<^verbatim>\<open>savetxt\<close> formats them, the
  arrays the sums of the values as computed.
\<close>

definition plus_log_A :: "log_line list" where
  "plus_log_A = map fmt_row
     [row 0 0 0 0 0,
      row 0 0 1 (243 / (32 * pi ^ 4)) (1 / (6 * pi ^ 4)),
      row 0 1 1 0 0,
      row 1 0 1 (2187 / (4672 * pi ^ 4)) (3 / (146 * pi ^ 4))]"

definition minus_log_A :: "log_line list" where
  "minus_log_A = map fmt_row
     [row 0 0 0 (10935 / (2336 * pi ^ 4)) (15 / (146 * pi ^ 4)),
      row 1 0 0 (1215 / (64 * pi ^ 4)) (5 / (6 * pi ^ 4)),
      row 1 0 1 (2187 / (2336 * pi ^ 4)) (3 / (73 * pi ^ 4)),
      row 1 1 0 (2187 / (2336 * pi ^ 4)) (3 / (73 * pi ^ 4))]"

definition st_A_full :: gamma_state where
  "st_A_full =
     \<lparr>gamma = [14337 / (1168 * pi ^ 4), 49815 / (2336 * pi ^ 4), 0, 0, 0, 0],
      ps = [59 / (219 * pi ^ 4), 205 / (219 * pi ^ 4), 0, 0, 0, 0],
      gamma_tensor = None,
      progress = (\<lambda>b. Some (if b then plus_log_A else minus_log_A))\<rparr>"

text \<open>
  The run interrupted after the first bra mode of the plus pass: the plus file holds the
  three rows of bra mode \<open>0\<close>, there is no minus file yet. \<open>st_A_resumed\<close> is the state
  the resumed run returns: bra mode \<open>0\<close> has its plus rows as replayed from the file and
  its minus row as computed, bra mode \<open>1\<close> its three minus rows only.
\<close>

definition st_A_cut :: gamma_state where
  "st_A_cut = st_A0\<lparr>progress := (\<lambda>b. if b then Some (take 3 plus_log_A) else None)\<rparr>"

definition st_A_resumed :: gamma_state where
  "st_A_resumed =
     \<lparr>gamma = [fmt_e8 (243 / (32 * pi ^ 4)) + 10935 / (2336 * pi ^ 4),
               97443 / (4672 * pi ^ 4), 0, 0, 0, 0],
      ps = [fmt_e8 (1 / (6 * pi ^ 4)) + 15 / (146 * pi ^ 4), 401 / (438 * pi ^ 4), 0, 0, 0, 0],
      gamma_tensor = None,
      progress = (\<lambda>b. Some (if b then take 3 plus_log_A else minus_log_A))\<rparr>"

text \<open>The files and the state of a first run of \<open>ph_B\<close> with the tensor enabled.\<close>

definition plus_log_B :: "log_line list" where
  "plus_log_B = map fmt_row
     [row 0 0 0 0 0,
      row 0 3 3 0 0,
      row 3 0 3 (243 / (1168 * pi ^ 4)) (1 / (73 * pi ^ 4))]"

definition minus_log_B :: "log_line list" where
  "minus_log_B = map fmt_row
     [row 0 0 0 (10935 / (2336 * pi ^ 4)) (15 / (146 * pi ^ 4)),
      row 3 0 3 (243 / (584 * pi ^ 4)) (2 / (73 * pi ^ 4)),
      row 3 3 0 (243 / (584 * pi ^ 4)) (2 / (73 * pi ^ 4))]"

definition st_B_tensor :: gamma_state where
  "st_B_tensor =
     \<lparr>gamma = [10935 / (2336 * pi ^ 4), 0, 0, 1215 / (1168 * pi ^ 4), 0, 0],
      ps = [15 / (146 * pi ^ 4), 0, 0, 5 / (73 * pi ^ 4), 0, 0],
      gamma_tensor = Some
        [[10935 / (1168 * pi ^ 4), 0, 0, 0, 0, 0],
         [0, 0, 0, 0, 0, 0],
         [0, 0, 0, 0, 0, 0],
         [729 / (1168 * pi ^ 4), 0, 0, 1215 / (1168 * pi ^ 4), 0, 0],
         [0, 0, 0, 0, 0, 0],
         [0, 0, 0, 0, 0, 0]],
      progress = (\<lambda>b. Some (if b then plus_log_B else minus_log_B))\<rparr>"

text \<open>
  The states the runs under the unrecognised name end in: with no mode above the threshold
  the run returns, both files created and empty; with one it raises at the first bra mode,
  the plus file created and empty.
\<close>

definition st_quiet :: gamma_state where
  "st_quiet = \<lparr>gamma = [0, 0, 0, 0, 0, 0], ps = [0, 0, 0, 0, 0, 0], gamma_tensor = None,
               progress = (\<lambda>b. Some [])\<rparr>"

definition st_foo :: gamma_state where
  "st_foo = \<lparr>gamma = [0, 0, 0, 0, 0, 0], ps = [0, 0, 0, 0, 0, 0], gamma_tensor = None,
             progress = (\<lambda>b. if b then Some [] else None)\<rparr>"

text \<open>
  A system on the mesh \<open>(3, 1, 1)\<close>, where adding and subtracting wavevectors differ: one
  mode above the threshold at each of the wavevectors \<open>1\<close> and \<open>2\<close>, at \<open>1\<close> and \<open>2\<close>.
  A first run leaves one plus row, with wavevectors \<open>1 + 1 = 2\<close>, and one minus row, with
  wavevectors \<open>2 - 1 = 1\<close>.
\<close>

definition ph_C :: phonons where
  "ph_C = ph_A\<lparr>frequencies := (\<lambda>k mu. if mu = 0 then real k else 0),
               occupations := (\<lambda>k mu. if k = 1 then 2 else 1),
               kpts := (3, 1, 1)\<rparr>"

definition plus_log_C :: "log_line list" where
  "plus_log_C = map fmt_row [row 3 3 6 (81 / (16 * pi ^ 4)) (1 / (6 * pi ^ 4))]"

definition minus_log_C :: "log_line list" where
  "minus_log_C = map fmt_row [row 6 3 3 (405 / (32 * pi ^ 4)) (5 / (6 * pi ^ 4))]"

definition st_C :: gamma_state where
  "st_C =
     \<lparr>gamma = [0, 0, 0, 81 / (16 * pi ^ 4), 0, 0, 405 / (32 * pi ^ 4), 0, 0],
      ps = [0, 0, 0, 1 / (6 * pi ^ 4), 0, 0, 5 / (6 * pi ^ 4), 0, 0],
      gamma_tensor = None,
      progress = (\<lambda>b. Some (if b then plus_log_C else minus_log_C))\<rparr>"

text \<open>
  The state after the three rows of bra mode \<open>0\<close> are replayed into zeroed arrays.
\<close>

definition st_foo_replayed :: gamma_state where
  "st_foo_replayed =
     \<lparr>gamma = [fmt_e8 (243 / (32 * pi ^ 4)), 0, 0, 0, 0, 0],
      ps = [fmt_e8 (1 / (6 * pi ^ 4)), 0, 0, 0, 0, 0],
      gamma_tensor = None,
      progress = (\<lambda>b. if b then Some (take 3 plus_log_A) else None)\<rparr>"

section \<open>The triangular kernel\<close>

lemma upt_1: "[0..<1] = [0]"
  by (simp add: upt_rec)

lemma upt_2: "[0..<2] = [0, 1]"
  by (simp add: upt_rec)

lemma upt_3: "[0..<3] = [0, 1, 2]"
  by (simp add: upt_rec)

text \<open>
  With one width per entry, the assignment under the mask raises as soon as the arrays
  have two entries or more and one of them is outside its support.
\<close>

lemma triangular_delta_outside_support:
  assumes "length ws = length de" and "2 \<le> length de" and "i < length de"
    and "\<bar>ws ! i\<bar> \<le> \<bar>de ! i\<bar>"
  shows "triangular_delta de (Array ws) = Inl ValueError"
proof -
  have "\<not> list_all2 (<) (map abs de) (map abs ws)"
    using assms by (auto simp: list_all2_conv_all_nth intro!: exI[of _ i])
  then show ?thesis using assms by simp
qed

text \<open>
  C7 fails on the code. With a scalar width the kernel is the claimed ramp: the mismatches
  \<open>0\<close> and \<open>2\<close> under the width \<open>1\<close> give \<open>1\<close> and \<open>0\<close>. With the same width given per
  entry, as on the adaptive path, the call raises: the right-hand side of the masked
  assignment has the length of the unmasked widths. It is reached from
  \<open>calculate_single_gamma\<close>, whose energy window admits mismatches up to twice the kernel's
  width: with the bra frequency and the partner frequencies \<open>1/2\<close> and \<open>5/2\<close> and the
  adaptive width \<open>1 / (2 * pi)\<close> everywhere, the three triplets that pass have the
  mismatches \<open>1/2\<close>, \<open>3/2\<close>, \<open>1/2\<close> and the kernel width \<open>1\<close>, and the call raises.
\<close>

theorem triangular_delta_per_entry_width_raises:
  "triangular_delta [0, 2] (Scalar 1) = Inr [1, 0]
   \<and> triangular_delta [0, 2] (Array [1, 1]) = Inl ValueError
   \<and> differences True 0 0 [0] om1 [0]
        (interactions 2 True 0 0 [0] (\<lambda>k mu. 1) 0 om1 [0] adaptive1) = [1 / 2, 3 / 2, 1 / 2]
   \<and> widths adaptive1 (interactions 2 True 0 0 [0] (\<lambda>k mu. 1) 0 om1 [0] adaptive1)
        = Array [1, 1, 1]
   \<and> calculate_single_gamma U0 1 2 True 0 0 [0] (\<lambda>k mu. 1) (\<lambda>k mu. 1) 1
        (\<lambda>k n i. 1) (\<lambda>k n i. 1) (\<lambda>k l. 1) (\<lambda>k l. 1) (\<lambda>l i t j. 1) adaptive1 0 om1 [0]
        adaptive1 triangular_delta = Inl ValueError"
proof -
  have i: "interactions 2 True 0 0 [0] (\<lambda>k mu. 1) 0 om1 [0] adaptive1 = [(0, 0, 0), (0, 0, 1), (0, 1, 1)]"
    by (simp add: interactions_def condition_def omegas_difference_def upt_2
        DELTA_THRESHOLD_def second_sign_def om1_def adaptive1_def)
  have d: "differences True 0 0 [0] om1 [0] [(0, 0, 0), (0, 0, 1), (0, 1, 1)] = [1 / 2, 3 / 2, 1 / 2]"
    by (simp add: differences_def omegas_difference_def second_sign_def om1_def)
  have w: "widths adaptive1 [(0, 0, 0), (0, 0, 1), (0, 1, 1)] = Array [1, 1, 1]"
    by (simp add: widths_def adaptive1_def)
  have t: "triangular_delta [1 / 2, 3 / 2, 1 / 2] (Array [1, 1, 1]) = Inl ValueError"
    by simp
  have c: "calculate_single_gamma U0 1 2 True 0 0 [0] (\<lambda>k mu. 1) (\<lambda>k mu. 1) 1
        (\<lambda>k n i. 1) (\<lambda>k n i. 1) (\<lambda>k l. 1) (\<lambda>k l. 1) (\<lambda>l i t j. 1) adaptive1 0 om1 [0]
        adaptive1 triangular_delta = Inl ValueError"
    unfolding calculate_single_gamma_def Let_def i d w t by simp
  have s: "triangular_delta [0, 2] (Scalar 1) = Inr [1, 0]"
    by (simp add: triangle_def ramp_def)
  have a: "triangular_delta [0, 2] (Array [1, 1]) = Inl ValueError"
    by simp
  show ?thesis using i d w c s a by simp
qed

text \<open>
  C10: \<open>triangular_delta\<close> depends on the absolute values of its inputs only. Negating
  every energy mismatch, or the width (every width of an array), changes nothing: neither
  the values nor whether the call raises.
\<close>

theorem triangular_delta_abs:
  "triangular_delta (map uminus de) w = triangular_delta de w \<and>
   triangular_delta de (negate_width w) = triangular_delta de w"
  by (cases w) (simp_all add: o_def)

section \<open>One bra mode: selection and weights\<close>

lemma in_interactions:
  "(i, mup, mupp) \<in> set (interactions n is_plus index_k mu kpf freq thr om kpp sig) \<longleftrightarrow>
     i < length kpf \<and> mup < n \<and> mupp < n \<and>
     condition is_plus index_k mu kpf freq thr om kpp sig i mup mupp"
  by (auto simp: interactions_def)

lemma imul_length: "imul xs ys = Inr zs \<Longrightarrow> length zs = length xs"
  by (auto simp: imul_def split: if_splits)

lemma imul_nth:
  "imul xs ys = Inr zs \<Longrightarrow> i < length xs \<Longrightarrow>
     zs ! i = xs ! i * (if length ys = length xs then ys ! i else hd ys)"
  by (auto simp: imul_def split: if_splits)

lemma single_gamma_Some:
  assumes "calculate_single_gamma U nr n is_plus index_k mu kpf freq dens np fe se fc sc sp
             sgi thr om kpp sig bf = Inr (Some out)"
  defines "T \<equiv> interactions n is_plus index_k mu kpf freq thr om kpp sig"
  shows "T \<noteq> [] \<and> length kpp = length kpf
     \<and> index_kp_out out = map (\<lambda>(i, mup, mupp). i) T
     \<and> mup_out out = map (\<lambda>(i, mup, mupp). mup) T
     \<and> index_kpp_out out = map (\<lambda>(i, mup, mupp). kpp ! i) T
     \<and> mupp_out out = map (\<lambda>(i, mup, mupp). mupp) T
     \<and> (\<exists>kern. bf (differences is_plus index_k mu kpf om kpp T) (widths sig T) = Inr kern
          \<and> imul (map (weight is_plus dens om kpp) T) kern = Inr (dirac out))
     \<and> pot_times_dirac out = map2 (\<lambda>(i, mup, mupp) d.
           hbar U * pi / 4 * ((cmod (contract nr n sp fe fc se sc i mup mupp)) ^ 2 * d)
             / om index_k mu / real np * gammatothz U) T (dirac out)"
  using assms(1) unfolding T_def calculate_single_gamma_def Let_def
  by (auto split: if_splits sum.splits
      simp: map_zip_map zip_map1 zip_map2 o_def case_prod_unfold cong: map_cong)




lemma four_pi: "1 < 4 * pi"
  using pi_ge_two by linarith

lemma single_gamma_out0:
  "calculate_single_gamma U0 1 1 True 0 0 [0..<1] (\<lambda>k mu. 1) (\<lambda>k mu. 1) 1
       (\<lambda>k n i. 1) (\<lambda>k n i. 1) (\<lambda>k l. 1) (\<lambda>k l. 1) (\<lambda>l i t j. 1) (Fixed 1) 0 (\<lambda>k mu. 1) [0]
       (Fixed 1) flat_kernel = Inr (Some out0)"
  by (simp add: calculate_single_gamma_def interactions_def condition_def omegas_difference_def
      upt_1 DELTA_THRESHOLD_def differences_def widths_def flat_kernel_def imul_def weight_def
      contract_def U0_def gammatothz_def Let_def second_sign_def four_pi out0_def)


text \<open>
  C5: in a plus call that returns arrays, entry \<open>i\<close> of the weights is the occupation
  difference \<open>n(kp) - n(kpp)\<close> divided by \<open>omega(kp) * omega(kpp)\<close> and multiplied by the
  kernel's value for that triplet; the rate contribution is the squared matrix element
  times that weight, scaled by \<open>hbar * pi / 4\<close>, \<open>1 / omega(k, mu)\<close>, \<open>1 / nptk\<close> and the
  unit constant; so a triplet whose partners have equal occupations contributes exactly
  \<open>0\<close>.
\<close>

theorem plus_weight:
  assumes "calculate_single_gamma U nr n True index_k mu kpf freq dens np fe se fc sc sp
             sgi thr om kpp sig bf = Inr (Some out)"
    and "i < length (pot_times_dirac out)"
  defines "T \<equiv> interactions n True index_k mu kpf freq thr om kpp sig"
  defines "p \<equiv> index_kp_out out ! i" and "mup \<equiv> mup_out out ! i"
    and "pp \<equiv> index_kpp_out out ! i" and "mupp \<equiv> mupp_out out ! i"
  shows "(\<exists>kern. bf (differences True index_k mu kpf om kpp T) (widths sig T) = Inr kern
            \<and> dirac out ! i = (dens p mup - dens pp mupp) / (om p mup * om pp mupp)
                 * (if length kern = length T then kern ! i else hd kern))
     \<and> pot_times_dirac out ! i =
          hbar U * pi / 4 * ((cmod (contract nr n sp fe fc se sc p mup mupp)) ^ 2 * dirac out ! i)
            / om index_k mu / real np * gammatothz U
     \<and> (dens p mup = dens pp mupp \<longrightarrow> pot_times_dirac out ! i = 0)"
proof -
  note S = single_gamma_Some[OF assms(1), folded T_def]
  from S obtain kern where k: "bf (differences True index_k mu kpf om kpp T) (widths sig T) = Inr kern"
    and im: "imul (map (weight True dens om kpp) T) kern = Inr (dirac out)"
    by blast
  have ld: "length (dirac out) = length T" using imul_length[OF im] by simp
  have lp: "length (pot_times_dirac out) = length T" using S ld by simp
  have i: "i < length T" using assms(2) lp by simp
  obtain a b c where t: "T ! i = (a, b, c)" by (cases "T ! i")
  have idx: "p = a" "mup = b" "pp = kpp ! a" "mupp = c"
    using S i t by (simp_all add: p_def mup_def pp_def mupp_def)
  have d: "dirac out ! i = (dens p mup - dens pp mupp) / (om p mup * om pp mupp)
                 * (if length kern = length T then kern ! i else hd kern)"
    using imul_nth[OF im, of i] i t idx by (simp add: weight_def)
  have q: "pot_times_dirac out ! i =
          hbar U * pi / 4 * ((cmod (contract nr n sp fe fc se sc p mup mupp)) ^ 2 * dirac out ! i)
            / om index_k mu / real np * gammatothz U"
    using S i t idx ld by simp
  show ?thesis using k d q by auto
qed

text \<open>
  The theorem at the same call: both partners have occupation \<open>1\<close>, and the rate
  contribution of the triplet is \<open>0\<close>.
\<close>

theorem plus_weight_witness:
  "calculate_single_gamma U0 1 1 True 0 0 [0..<1] (\<lambda>k mu. 1) (\<lambda>k mu. 1) 1
       (\<lambda>k n i. 1) (\<lambda>k n i. 1) (\<lambda>k l. 1) (\<lambda>k l. 1) (\<lambda>l i t j. 1) (Fixed 1) 0 (\<lambda>k mu. 1) [0]
       (Fixed 1) flat_kernel = Inr (Some out0)
   \<and> 0 < length (pot_times_dirac out0) \<and> pot_times_dirac out0 ! 0 = 0"
proof -
  have l: "0 < length (pot_times_dirac out0)"
    by (simp add: out0_def)
  from plus_weight[OF single_gamma_out0 l] have "pot_times_dirac out0 ! 0 = 0"
    by simp
  with l single_gamma_out0 show ?thesis by simp
qed

section \<open>The occupations accessor on a cache miss\<close>

text \<open>
  C8 fails on the code. When nothing is in memory and there is no file, the accessor does
  not compute the occupations: its first statement on that path reads
  \<^verbatim>\<open>self.frequencies\<close>, which the controller does not have, and the call raises; nothing
  is saved, in memory or on disk. The accessor returns only what was cached: the array in
  memory, or else the array in the file, which it then keeps in memory.
\<close>

theorem occupations_miss_raises:
  "occupations_getter U (self\<lparr>cached_occupations := None\<rparr>)
       (d\<lparr>files := (files d)(folder_name self @ OCCUPATIONS_FILE := None)\<rparr>)
     = (Inl AttributeError, self\<lparr>cached_occupations := None\<rparr>,
        d\<lparr>files := (files d)(folder_name self @ OCCUPATIONS_FILE := None)\<rparr>)
   \<and> occupations_getter U0 self0 disk0 = (Inl AttributeError, self0, disk0)
   \<and> occupations_getter U (self\<lparr>cached_occupations := Some a\<rparr>) d
     = (Inr a, self\<lparr>cached_occupations := Some a\<rparr>, d)
   \<and> occupations_getter U (self\<lparr>cached_occupations := None\<rparr>)
       (d\<lparr>files := (files d)(folder_name self @ OCCUPATIONS_FILE := Some a)\<rparr>)
     = (Inr a, self\<lparr>cached_occupations := Some a\<rparr>,
        d\<lparr>files := (files d)(folder_name self @ OCCUPATIONS_FILE := Some a)\<rparr>)"
  by (simp add: occupations_getter_def missing_attribute_def self0_def disk0_def)

section \<open>The accumulation loop: how steps compose\<close>


lemma bind_result_simps [simp]:
  "bind_result (Inr s) f = f s" "bind_result (Inl e) f = Inl e"
  by (simp_all add: bind_result_def)

lemma holds_Inr [simp]: "holds b R st (Inr s) = R st s"
  by (simp add: holds_def)

lemma holds_Inl [simp]: "holds b R st (Inl (e, s)) = (b \<longrightarrow> R st s)"
  by (simp add: holds_def)

lemma holds_bind:
  assumes "transp R" and "holds b R st r"
    and "\<And>s. r = Inr s \<Longrightarrow> R st s \<Longrightarrow> holds b R s (f s)"
  shows "holds b R st (bind_result r f)"
proof (cases r)
  case (Inl a)
  with assms(2) show ?thesis by (cases a) simp
next
  case (Inr s)
  with assms(2) have R: "R st s" by simp
  from assms(3)[OF Inr R] show ?thesis
    using Inr R assms(1) by (auto simp: holds_def dest: transpD split: sum.splits)
qed

lemma holds_fold:
  assumes "reflp R" and "transp R" and "\<And>x s. x \<in> set xs \<Longrightarrow> holds b R s (f x s)"
  shows "holds b R st (fold_result f xs st)"
  using assms(3)
proof (induction xs arbitrary: st)
  case Nil
  show ?case using assms(1) by (simp add: reflpD)
next
  case (Cons x xs)
  show ?case
    by (simp, rule holds_bind[OF assms(2)]) (simp_all add: Cons)
qed

lemma holds_mu_loop:
  assumes "reflp R" and "transp R"
    and "\<And>mu s. mu \<in> set mus \<Longrightarrow> holds b R s (bra_mode_step U en ph is_plus index_k kpp bf sg mu s)"
  shows "holds b R st (mu_loop U en ph is_plus ik im index_k kpp bf sg mus st)"
  using assms(3)
proof (induction mus arbitrary: st)
  case Nil
  show ?case using assms(1) by (simp add: reflpD)
next
  case (Cons mu mus)
  show ?case
  proof (cases "index_k = ik \<and> mu < im")
    case True
    then show ?thesis using assms(1) by (simp add: reflpD)
  next
    case False
    then have e: "mu_loop U en ph is_plus ik im index_k kpp bf sg (mu # mus) st =
        bind_result (bra_mode_step U en ph is_plus index_k kpp bf sg mu st)
          (mu_loop U en ph is_plus ik im index_k kpp bf sg mus)"
      by auto
    show ?thesis
      unfolding e by (rule holds_bind[OF assms(2)]) (simp_all add: Cons)
  qed
qed

lemma holds_index_k_step:
  assumes "reflp R" and "transp R"
    and "\<And>mu s. mu < n_modes ph \<Longrightarrow>
           holds b R s (bra_mode_step U en ph is_plus index_k (index_kpp_of ph is_plus index_k)
             (select_broadening (broadening_shape ph))
             (sigma_small_of ph (index_kpp_of ph is_plus index_k)) mu s)"
  shows "holds b R st (index_k_step U en ph is_plus ik im index_k st)"
  unfolding index_k_step_def Let_def
  using assms(1) by (auto intro!: holds_mu_loop assms simp: reflpD)

lemma holds_process_pass:
  assumes "reflp R" and "transp R"
    and "holds b R st (replay en is_plus st)"
    and "\<And>index_k mu s. index_k < nptk ph \<Longrightarrow> mu < n_modes ph \<Longrightarrow>
           holds b R s (bra_mode_step U en ph is_plus index_k (index_kpp_of ph is_plus index_k)
             (select_broadening (broadening_shape ph))
             (sigma_small_of ph (index_kpp_of ph is_plus index_k)) mu s)"
  shows "holds b R st (process_pass U en ph is_plus st)"
  unfolding process_pass_def Let_def
  apply (rule holds_bind[OF assms(2) assms(3)])
  using assms(1)
  apply (auto intro!: holds_fold holds_index_k_step assms simp: reflpD)
  done

lemma holds_calculate_gamma:
  assumes "reflp R" and "transp R"
    and "R st (reset en ph st)"
    and "\<And>is_plus s. holds b R s (replay en is_plus s)"
    and "\<And>is_plus index_k mu s. index_k < nptk ph \<Longrightarrow> mu < n_modes ph \<Longrightarrow>
           holds b R s (bra_mode_step U en ph is_plus index_k (index_kpp_of ph is_plus index_k)
             (select_broadening (broadening_shape ph))
             (sigma_small_of ph (index_kpp_of ph is_plus index_k)) mu s)"
  shows "holds b R st (calculate_gamma U en ph st)"
proof -
  have p: "holds b R s (process_pass U en ph is_plus s)" for is_plus s
    by (rule holds_process_pass[OF assms(1,2) assms(4)]) (rule assms(5))
  have "holds b R (reset en ph st) (calculate_gamma U en ph st)"
    unfolding calculate_gamma_def
    by (rule holds_bind[OF assms(2) p]) (rule p)
  then show ?thesis
    using assms(2,3) by (auto simp: holds_def dest: transpD split: sum.splits)
qed

lemma holds_mono:
  "holds b R st r \<Longrightarrow> (\<And>s'. R st s' \<Longrightarrow> R' st s') \<Longrightarrow> holds b R' st r"
  by (auto simp: holds_def split: sum.splits)

lemma holds_after:
  "transp R \<Longrightarrow> R s s1 \<Longrightarrow> holds b R s1 r \<Longrightarrow> holds b R s r"
  by (auto simp: holds_def dest: transpD split: sum.splits)

lemma holds_bra_mode_step:
  assumes "reflp R" and "transp R" and "R s (open_append is_plus s)"
    and "\<And>f out. bf = Some f \<Longrightarrow>
           calculate_single_gamma U (n_replicas ph) (n_modes ph) is_plus index_k mu
             [0..<nptk ph] (frequencies ph) (occupations ph) (nptk ph)
             (first_evect ph is_plus) (second_evect ph kpp)
             (first_chi ph is_plus) (second_chi ph kpp)
             (scaled_potential ph (ravel_mode (n_modes ph) index_k mu)) sg (frequency_threshold ph)
             (omegas ph) kpp sg f = Inr (Some out) \<Longrightarrow>
           holds b R (open_append is_plus s)
             (accumulate en is_plus (n_modes ph) (ravel_mode (n_modes ph) index_k mu) out
                (open_append is_plus s))"
  shows "holds b R s (bra_mode_step U en ph is_plus index_k kpp bf sg mu s)"
proof -
  let ?s1 = "open_append is_plus s"
  let ?r = "bra_mode_step U en ph is_plus index_k kpp bf sg mu s"
  have "holds b R ?s1 ?r"
  proof (cases "frequencies ph index_k mu > frequency_threshold ph")
    case False
    then show ?thesis using assms(1) by (simp add: bra_mode_step_def Let_def reflpD)
  next
    case True
    show ?thesis
    proof (cases bf)
      case None
      then show ?thesis using True assms(1) by (simp add: bra_mode_step_def Let_def reflpD)
    next
      case (Some f)
      show ?thesis
      proof (cases "calculate_single_gamma U (n_replicas ph) (n_modes ph) is_plus index_k mu
             [0..<nptk ph] (frequencies ph) (occupations ph) (nptk ph)
             (first_evect ph is_plus) (second_evect ph kpp)
             (first_chi ph is_plus) (second_chi ph kpp)
             (scaled_potential ph (ravel_mode (n_modes ph) index_k mu)) sg (frequency_threshold ph)
             (omegas ph) kpp sg f")
        case (Inl e)
        then show ?thesis using True Some assms(1)
          by (simp add: bra_mode_step_def Let_def reflpD)
      next
        case (Inr o1)
        show ?thesis
        proof (cases o1)
          case None
          then show ?thesis using True Some Inr assms(1)
            by (simp add: bra_mode_step_def Let_def reflpD)
        next
          case (Some out)
          with Inr assms(4)[OF \<open>bf = Some f\<close>] True \<open>bf = Some f\<close> show ?thesis
            by (simp add: bra_mode_step_def Let_def)
        qed
      qed
    qed
  qed
  then show ?thesis by (rule holds_after[OF assms(2,3)])
qed

subsection \<open>Steps that leave the progress files alone\<close>

lemma same_progress_refl_trans: "reflp same_progress" "transp same_progress"
  by (auto intro: reflpI transpI)

lemma gamma_add_progress: "holds True same_progress s (gamma_add i v s)"
  by (simp add: gamma_add_def)

lemma ps_add_progress: "holds True same_progress s (ps_add i v s)"
  by (simp add: ps_add_def)

lemma tensor_add_progress: "holds True same_progress s (tensor_add i j v s)"
  by (simp add: tensor_add_def split: option.splits)

lemma tensor_update_progress: "holds True same_progress s (tensor_update en is_plus i j k v s)"
  unfolding tensor_update_def
  by (auto intro!: holds_bind same_progress_refl_trans tensor_add_progress)

lemma replay_line_progress: "holds True same_progress s (replay_line en is_plus l s)"
  unfolding replay_line_def
  by (intro holds_bind same_progress_refl_trans gamma_add_progress ps_add_progress
      tensor_update_progress)

lemma replay_progress: "holds True same_progress s (replay en is_plus s)"
  unfolding replay_def
  by (auto split: option.splits intro!: holds_fold same_progress_refl_trans replay_line_progress)

lemma log_of_open_append [simp]: "log_of (open_append b s) b' = log_of s b'"
  by (simp add: open_append_def log_of_def split: option.splits)

lemma log_of_savetxt:
  "log_of (savetxt b rows s) b' = (if b' = b then log_of s b @ map fmt_row rows else log_of s b')"
  by (simp add: savetxt_def log_of_def)

lemma fmt_row_simps [simp]:
  "read_nu (fmt_row r) = read_nu r" "read_nup (fmt_row r) = read_nup r"
  "read_nupp (fmt_row r) = read_nupp r" "val (fmt_row r) = fmt_e8 (val r)"
  "value_ps (fmt_row r) = fmt_e8 (value_ps r)"
  by (simp_all add: fmt_row_def)

lemma fmt_e8_0 [simp]: "fmt_e8 0 = 0"
  by (simp add: fmt_e8_def)

subsection \<open>Unrecognised kernel: nothing is written\<close>

lemma same_logs_refl_trans: "reflp same_logs" "transp same_logs"
  by (auto intro: reflpI transpI)

lemma same_progress_logs: "progress s' = progress s \<Longrightarrow> log_of s' b = log_of s b"
  by (simp add: log_of_def)

lemma bra_mode_step_unbound:
  "holds True same_logs s (bra_mode_step U en ph is_plus index_k kpp None sg mu s)"
  by (rule holds_bra_mode_step[OF same_logs_refl_trans]) simp_all

lemma calculate_gamma_unbound:
  assumes "select_broadening (broadening_shape ph) = None"
  shows "holds True same_logs st (calculate_gamma U en ph st)"
proof (rule holds_calculate_gamma[OF same_logs_refl_trans])
  show "\<forall>b. log_of (reset en ph st) b = log_of st b"
    by (simp add: reset_def log_of_def)
next
  fix is_plus s
  show "holds True same_logs s (replay en is_plus s)"
    by (rule holds_mono[OF replay_progress]) (simp add: log_of_def)
next
  fix is_plus index_k mu s
  show "holds True same_logs s
          (bra_mode_step U en ph is_plus index_k (index_kpp_of ph is_plus index_k)
            (select_broadening (broadening_shape ph))
            (sigma_small_of ph (index_kpp_of ph is_plus index_k)) mu s)"
    unfolding assms by (rule bra_mode_step_unbound)
qed

subsection \<open>Tensor disabled: the tensor is not written\<close>

lemma same_tensor_refl_trans: "reflp same_tensor" "transp same_tensor"
  by (auto intro: reflpI transpI)

lemma gamma_add_tensor: "holds True same_tensor s (gamma_add i v s)"
  by (simp add: gamma_add_def)

lemma ps_add_tensor: "holds True same_tensor s (ps_add i v s)"
  by (simp add: ps_add_def)

lemma replay_line_tensor: "holds True same_tensor s (replay_line False is_plus l s)"
  unfolding replay_line_def
  by (intro holds_bind same_tensor_refl_trans gamma_add_tensor ps_add_tensor)
     (simp add: tensor_update_def)

lemma replay_tensor: "holds True same_tensor s (replay False is_plus s)"
  unfolding replay_def
  by (auto split: option.splits intro!: holds_fold same_tensor_refl_trans replay_line_tensor)

lemma accumulate_tensor: "holds True same_tensor s (accumulate False is_plus n nu_i out s)"
  unfolding accumulate_def Let_def
  by (intro holds_bind holds_fold same_tensor_refl_trans gamma_add_tensor ps_add_tensor)
     (simp_all add: tensor_update_def savetxt_def)

lemma bra_mode_step_tensor:
  "holds True same_tensor s (bra_mode_step U False ph is_plus index_k kpp bf sg mu s)"
  by (rule holds_bra_mode_step[OF same_tensor_refl_trans])
     (simp_all add: accumulate_tensor open_append_def split: option.splits)

lemma calculate_gamma_tensor:
  "holds True same_tensor st (calculate_gamma U False ph st)"
proof (rule holds_calculate_gamma[OF same_tensor_refl_trans])
  show "gamma_tensor (reset False ph st) = gamma_tensor st"
    by (simp add: reset_def)
qed (rule replay_tensor, rule bra_mode_step_tensor)

subsection \<open>Rows appended conserve quasi-momentum\<close>

lemma appended_refl_trans: "reflp (appended ph)" "transp (appended ph)"
proof -
  show "reflp (appended ph)"
    by (rule reflpI) (simp add: appended_def)
  show "transp (appended ph)"
  proof (rule transpI)
    fix a b c assume ab: "appended ph a b" and bc: "appended ph b c"
    show "appended ph a c"
      unfolding appended_def
    proof
      fix p
      from ab obtain n1 where 1: "log_of b p = log_of a p @ n1" "list_all (momentum_conserved ph p) n1"
        unfolding appended_def by blast
      from bc obtain n2 where 2: "log_of c p = log_of b p @ n2" "list_all (momentum_conserved ph p) n2"
        unfolding appended_def by blast
      from 1 2 have "log_of c p = log_of a p @ (n1 @ n2) \<and> list_all (momentum_conserved ph p) (n1 @ n2)"
        by simp
      then show "\<exists>new. log_of c p = log_of a p @ new \<and> list_all (momentum_conserved ph p) new"
        by blast
    qed
  qed
qed

lemma appended_frame: "progress s' = progress s \<Longrightarrow> appended ph s s'"
  by (simp add: appended_def log_of_def)

lemma momentum_conserved_fmt_row [simp]:
  "momentum_conserved ph is_plus (fmt_row r) = momentum_conserved ph is_plus r"
  by (simp add: momentum_conserved_def)

lemma appended_savetxt:
  "list_all (momentum_conserved ph is_plus) rows \<Longrightarrow> appended ph s (savetxt is_plus rows s)"
  by (auto simp: appended_def log_of_savetxt list_all_iff)

lemma accumulate_appended:
  assumes "list_all (momentum_conserved ph is_plus) (rows_of n nu_i out)"
  shows "holds True (appended ph) s (accumulate en is_plus n nu_i out s)"
  unfolding accumulate_def Let_def
proof (intro holds_bind appended_refl_trans)
  show "holds True (appended ph) s (gamma_add nu_i (sum_list (pot_times_dirac out)) s)"
    by (rule holds_mono[OF gamma_add_progress]) (rule appended_frame)
next
  fix s1
  show "holds True (appended ph) s1 (ps_add nu_i (sum_list (dirac out)) s1)"
    by (rule holds_mono[OF ps_add_progress]) (rule appended_frame)
next
  fix s2
  have "holds True same_progress s2
          (fold_result (\<lambda>r. tensor_update en is_plus nu_i (read_nup r) (read_nupp r) (val r))
             (rows_of n nu_i out) s2)"
    by (intro holds_fold same_progress_refl_trans tensor_update_progress)
  then show "holds True (appended ph) s2
          (fold_result (\<lambda>r. tensor_update en is_plus nu_i (read_nup r) (read_nupp r) (val r))
             (rows_of n nu_i out) s2)"
    by (rule holds_mono) (rule appended_frame)
next
  fix s3
  show "holds True (appended ph) s3 (Inr (savetxt is_plus (rows_of n nu_i out) s3))"
    using assms by (simp add: appended_savetxt)
qed

lemma rows_of_nth:
  assumes "calculate_single_gamma U nr n is_plus index_k mu kpf freq dens np fe se fc sc sp
             sgi thr om kpp sig bf = Inr (Some out)"
  defines "T \<equiv> interactions n is_plus index_k mu kpf freq thr om kpp sig"
  shows "rows_of m nu_i out =
     map2 (\<lambda>(i, mup, mupp) (p, d). \<lparr>read_nu = nu_i, read_nup = ravel_mode m i mup,
              read_nupp = ravel_mode m (kpp ! i) mupp, val = p, value_ps = d\<rparr>)
       T (zip (pot_times_dirac out) (dirac out))"
proof -
  note S = single_gamma_Some[OF assms(1), folded T_def]
  from S obtain kern where im: "imul (map (weight is_plus dens om kpp) T) kern = Inr (dirac out)"
    by blast
  have ld: "length (dirac out) = length T" using imul_length[OF im] by simp
  have lp: "length (pot_times_dirac out) = length T" using S ld by simp
  show ?thesis
    unfolding rows_of_def Let_def
    by (rule nth_equalityI) (use S ld lp in \<open>auto simp: case_prod_unfold\<close>)
qed

lemma ravel_mode_div: "m < n \<Longrightarrow> ravel_mode n k m div n = k"
  by (simp add: ravel_mode_def)

text \<open>
  The code's arithmetic on the mesh against the row-major coordinates: the components
  \<^verbatim>\<open>unravel_index\<close> gives are inside the mesh and ravel back to the index, and the
  wrapped sum (difference) of two points is the componentwise sum (difference) modulo the
  dimensions.
\<close>

lemma unravel_index_coordinates:
  assumes "k < nx * ny * nz"
  defines "x \<equiv> k div (ny * nz)" and "y \<equiv> (k div nz) mod ny" and "z \<equiv> k mod nz"
  shows "unravel_index k (nx, ny, nz) = (int x, int y, int z)"
    and "x < nx" and "y < ny" and "z < nz" and "k = (x * ny + y) * nz + z"
proof -
  from assms(1) have pos: "0 < nx" "0 < ny" "0 < nz"
    by (cases nx; cases ny; cases nz; simp)+
  show "unravel_index k (nx, ny, nz) = (int x, int y, int z)"
    by (simp add: x_def y_def z_def)
  show "x < nx"
    unfolding x_def using assms(1) by (simp add: less_mult_imp_div_less mult.assoc)
  show "y < ny" "z < nz"
    using pos by (simp_all add: y_def z_def)
  have "k div (ny * nz) = (k div nz) div ny"
    using div_mult2_eq[of k nz ny] by (simp add: mult.commute)
  then have "k div nz = x * ny + y"
    unfolding x_def y_def by simp
  then show "k = (x * ny + y) * nz + z"
    unfolding z_def by (metis div_mult_mod_eq)
qed

lemma wrap_plus: "nat ((int a + int b) mod int n) = (a + b) mod n"
  by (metis nat_int of_nat_add of_nat_mod)

lemma wrap_minus:
  assumes "b < n"
  shows "nat ((int a - int b) mod int n) = (a + n - b) mod n"
proof -
  have "int (a + n - b) = int a - int b + int n"
    using assms by simp
  then have "int ((a + n - b) mod n) = (int a - int b) mod int n"
    by (simp add: of_nat_mod)
  then show ?thesis
    by (metis nat_int)
qed

lemma index_kpp_conserved:
  assumes k: "index_k < nptk ph" and i: "i < nptk ph"
    and m: "mu < n_modes ph" "mup < n_modes ph" "mupp < n_modes ph"
  shows "momentum_conserved ph is_plus
           \<lparr>read_nu = index_k * n_modes ph + mu, read_nup = i * n_modes ph + mup,
            read_nupp = (index_kpp_of ph is_plus index_k ! i) * n_modes ph + mupp,
            val = p, value_ps = d\<rparr>"
proof -
  obtain nx ny nz where mesh: "kpts ph = (nx, ny, nz)"
    by (cases "kpts ph")
  from k i have kk: "index_k < nx * ny * nz" and ii: "i < nx * ny * nz"
    by (simp_all add: nptk_def mesh)
  note K = unravel_index_coordinates[OF kk] and I = unravel_index_coordinates[OF ii]
  let ?x = "index_k div (ny * nz)" and ?y = "(index_k div nz) mod ny" and ?z = "index_k mod nz"
  let ?x' = "i div (ny * nz)" and ?y' = "(i div nz) mod ny" and ?z' = "i mod nz"
  have kpp: "index_kpp_of ph is_plus index_k ! i =
      (if is_plus
       then (((?x + ?x') mod nx) * ny + (?y + ?y') mod ny) * nz + (?z + ?z') mod nz
       else (((?x + nx - ?x') mod nx) * ny + (?y + ny - ?y') mod ny) * nz + (?z + nz - ?z') mod nz)"
    using i I(2,3,4)
    by (simp add: index_kpp_of_def Let_def mesh K(1) I(1) second_sign_def wrap_plus wrap_minus
        del: unravel_index.simps)
  have d: "(index_k * n_modes ph + mu) div n_modes ph = index_k"
    "(i * n_modes ph + mup) div n_modes ph = i"
    "((index_kpp_of ph is_plus index_k ! i) * n_modes ph + mupp) div n_modes ph
       = index_kpp_of ph is_plus index_k ! i"
    using m by simp_all
  show ?thesis
    unfolding momentum_conserved_def mesh
    apply (simp only: prod.case log_line.simps d)
    apply (rule exI[of _ ?x], rule conjI[OF K(2)])
    apply (rule exI[of _ ?y], rule conjI[OF K(3)])
    apply (rule exI[of _ ?z], rule conjI[OF K(4)])
    apply (rule exI[of _ ?x'], rule conjI[OF I(2)])
    apply (rule exI[of _ ?y'], rule conjI[OF I(3)])
    apply (rule exI[of _ ?z'], rule conjI[OF I(4)])
    apply (intro conjI)
      apply (rule K(5))
     apply (rule I(5))
    apply (rule kpp)
    done
qed

lemma rows_conserved:
  assumes r: "calculate_single_gamma U nr (n_modes ph) is_plus index_k mu [0..<nptk ph] freq dens np
             fe se fc sc sp sgi thr om (index_kpp_of ph is_plus index_k) sig bf = Inr (Some out)"
    and mu: "mu < n_modes ph" and k: "index_k < nptk ph"
  shows "list_all (momentum_conserved ph is_plus)
           (rows_of (n_modes ph) (ravel_mode (n_modes ph) index_k mu) out)"
proof -
  let ?kpp = "index_kpp_of ph is_plus index_k"
  let ?T = "interactions (n_modes ph) is_plus index_k mu [0..<nptk ph] freq thr om ?kpp sig"
  have "momentum_conserved ph is_plus
          \<lparr>read_nu = ravel_mode (n_modes ph) index_k mu, read_nup = ravel_mode (n_modes ph) i mup,
           read_nupp = ravel_mode (n_modes ph) (?kpp ! i) mupp, val = p, value_ps = d\<rparr>"
    if "(i, mup, mupp) \<in> set ?T" for i mup mupp p d
  proof -
    from that have "i < nptk ph" "mup < n_modes ph" "mupp < n_modes ph"
      by (simp_all add: in_interactions)
    then show ?thesis
      unfolding ravel_mode_def by (intro index_kpp_conserved k mu)
  qed
  then show ?thesis
    unfolding rows_of_nth[OF r] list_all_iff
    by (auto dest!: set_zip_leftD simp: case_prod_unfold)
qed

lemma bra_mode_step_appended:
  assumes "mu < n_modes ph" and "index_k < nptk ph"
  shows "holds True (appended ph) s
          (bra_mode_step U en ph is_plus index_k (index_kpp_of ph is_plus index_k) bf sg mu s)"
proof (rule holds_bra_mode_step[OF appended_refl_trans])
  show "appended ph s (open_append is_plus s)"
    by (simp add: appended_def)
qed (rule accumulate_appended, rule rows_conserved, assumption, rule assms, rule assms)

lemma calculate_gamma_appended:
  "holds True (appended ph) st (calculate_gamma U en ph st)"
proof (rule holds_calculate_gamma[OF appended_refl_trans])
  show "appended ph st (reset en ph st)"
    by (rule appended_frame) (simp add: reset_def)
next
  fix is_plus s
  show "holds True (appended ph) s (replay en is_plus s)"
    by (rule holds_mono[OF replay_progress]) (rule appended_frame)
qed (rule bra_mode_step_appended, assumption+)

lemma holds_final: "holds True R st r \<Longrightarrow> R st (final_state r)"
  by (cases r) (auto simp: holds_def)

subsection \<open>Success of the elementary steps\<close>

lemma gamma_add_Inr:
  "gamma_add i v s = Inr s' \<longleftrightarrow>
     i < length (gamma s) \<and> s' = s\<lparr>gamma := (gamma s)[i := gamma s ! i + v]\<rparr>"
  by (auto simp: gamma_add_def)

lemma ps_add_Inr:
  "ps_add i v s = Inr s' \<longleftrightarrow>
     i < length (ps s) \<and> s' = s\<lparr>ps := (ps s)[i := ps s ! i + v]\<rparr>"
  by (auto simp: ps_add_def)

lemma bind_result_Inr:
  "bind_result r f = Inr s' \<longleftrightarrow> (\<exists>s. r = Inr s \<and> f s = Inr s')"
  by (cases r) auto

lemma tensor_only_refl_trans: "reflp tensor_only" "transp tensor_only"
proof -
  have "s = s\<lparr>gamma_tensor := gamma_tensor s\<rparr>" for s :: gamma_state
    by simp
  then show "reflp tensor_only"
    unfolding tensor_only_def by (intro reflpI) (rule exI)
  show "transp tensor_only"
    by (rule transpI) (auto simp: tensor_only_def)
qed

lemma tensor_add_only: "holds True tensor_only s (tensor_add i j v s)"
  using tensor_only_refl_trans(1)
  by (auto simp: tensor_add_def tensor_only_def reflp_def split: option.splits)

lemma tensor_update_only: "holds True tensor_only s (tensor_update en is_plus i j k v s)"
  unfolding tensor_update_def
  using tensor_only_refl_trans(1)
  by (auto intro!: holds_bind tensor_only_refl_trans tensor_add_only simp: reflp_def)

lemma tensor_update_False [simp]: "tensor_update False is_plus i j k v s = Inr s"
  by (simp add: tensor_update_def)

lemma fold_tensor_update_False [simp]:
  "fold_result (\<lambda>r. tensor_update False is_plus (a r) (b r) (c r) (d r)) rows s = Inr s"
  by (induction rows) simp_all

lemma fold_tensor_update_only:
  "holds True tensor_only s
     (fold_result (\<lambda>r. tensor_update en is_plus (a r) (b r) (c r) (d r)) rows s)"
  by (intro holds_fold tensor_only_refl_trans tensor_update_only)

lemma holds_InrD: "holds b R s r \<Longrightarrow> r = Inr s' \<Longrightarrow> R s s'"
  by (simp add: holds_def)

text \<open>A line replays when its bra mode is inside both arrays.\<close>

lemma replay_line_Inr:
  assumes "replay_line en is_plus l s = Inr s'"
  shows "read_nu l < length (gamma s) \<and> read_nu l < length (ps s)
     \<and> (\<exists>t. s' = s\<lparr>gamma := (gamma s)[read_nu l := gamma s ! read_nu l + val l],
                     ps := (ps s)[read_nu l := ps s ! read_nu l + value_ps l],
                     gamma_tensor := t\<rparr>)"
proof -
  from assms obtain s1 s2 where 1: "gamma_add (read_nu l) (val l) s = Inr s1"
    and 2: "ps_add (read_nu l) (value_ps l) s1 = Inr s2"
    and 3: "tensor_update en is_plus (read_nu l) (read_nup l) (read_nupp l) (val l) s2 = Inr s'"
    unfolding replay_line_def bind_result_Inr by blast
  from holds_InrD[OF tensor_update_only 3] obtain t where "s' = s2\<lparr>gamma_tensor := t\<rparr>"
    unfolding tensor_only_def by blast
  with 1 2 show ?thesis
    by (auto simp: gamma_add_Inr ps_add_Inr)
qed

lemma replay_line_False:
  assumes "read_nu l < length (gamma s)" "read_nu l < length (ps s)"
  shows "replay_line False is_plus l s =
           Inr (s\<lparr>gamma := (gamma s)[read_nu l := gamma s ! read_nu l + val l],
                  ps := (ps s)[read_nu l := ps s ! read_nu l + value_ps l]\<rparr>)"
  using assms by (simp add: replay_line_def gamma_add_def ps_add_def)

text \<open>The same for the totals of a freshly evaluated bra mode.\<close>

lemma accumulate_Inr:
  assumes "accumulate en is_plus n nu_i out s = Inr s'"
  shows "nu_i < length (gamma s) \<and> nu_i < length (ps s)
     \<and> (\<exists>t. s' = savetxt is_plus (rows_of n nu_i out)
                  (s\<lparr>gamma := (gamma s)[nu_i := gamma s ! nu_i + sum_list (pot_times_dirac out)],
                     ps := (ps s)[nu_i := ps s ! nu_i + sum_list (dirac out)],
                     gamma_tensor := t\<rparr>))"
proof -
  from assms obtain s1 s2 s3 where 1: "gamma_add nu_i (sum_list (pot_times_dirac out)) s = Inr s1"
    and 2: "ps_add nu_i (sum_list (dirac out)) s1 = Inr s2"
    and 3: "fold_result (\<lambda>r. tensor_update en is_plus nu_i (read_nup r) (read_nupp r) (val r))
              (rows_of n nu_i out) s2 = Inr s3"
    and 4: "s' = savetxt is_plus (rows_of n nu_i out) s3"
    unfolding accumulate_def Let_def bind_result_Inr by auto
  from holds_InrD[OF fold_tensor_update_only 3] obtain t where "s3 = s2\<lparr>gamma_tensor := t\<rparr>"
    unfolding tensor_only_def by blast
  with 1 2 4 show ?thesis
    by (auto simp: gamma_add_Inr ps_add_Inr)
qed

lemma accumulate_False:
  assumes "nu_i < length (gamma s)" "nu_i < length (ps s)"
  shows "accumulate False is_plus n nu_i out s =
           Inr (savetxt is_plus (rows_of n nu_i out)
                  (s\<lparr>gamma := (gamma s)[nu_i := gamma s ! nu_i + sum_list (pot_times_dirac out)],
                     ps := (ps s)[nu_i := ps s ! nu_i + sum_list (dirac out)]\<rparr>))"
  using assms by (simp add: accumulate_def Let_def gamma_add_def ps_add_def)

subsection \<open>The run without the tensor simulates the run with it\<close>

lemma simulatesI:
  "(\<And>s s' t. f s = Inr s' \<Longrightarrow> g (s\<lparr>gamma_tensor := t\<rparr>) = Inr (s'\<lparr>gamma_tensor := t\<rparr>))
     \<Longrightarrow> simulates f g"
  by (simp add: simulates_def)

lemma simulatesD:
  "simulates f g \<Longrightarrow> f s = Inr s' \<Longrightarrow> g (s\<lparr>gamma_tensor := t\<rparr>) = Inr (s'\<lparr>gamma_tensor := t\<rparr>)"
  by (simp add: simulates_def)

lemma simulates_bind:
  assumes "simulates f g" and "simulates f' g'"
  shows "simulates (\<lambda>s. bind_result (f s) f') (\<lambda>s. bind_result (g s) g')"
proof (rule simulatesI)
  fix s s' t assume "bind_result (f s) f' = Inr s'"
  then obtain s1 where "f s = Inr s1" "f' s1 = Inr s'"
    unfolding bind_result_Inr by blast
  then show "bind_result (g (s\<lparr>gamma_tensor := t\<rparr>)) g' = Inr (s'\<lparr>gamma_tensor := t\<rparr>)"
    using simulatesD[OF assms(1)] simulatesD[OF assms(2)] by simp
qed

lemma simulates_fold:
  assumes "\<And>x. x \<in> set xs \<Longrightarrow> simulates (f x) (g x)"
  shows "simulates (fold_result f xs) (fold_result g xs)"
  using assms
proof (induction xs)
  case Nil
  show ?case by (simp add: simulates_def)
next
  case (Cons x xs)
  have "simulates (\<lambda>s. bind_result (f x s) (fold_result f xs))
          (\<lambda>s. bind_result (g x s) (fold_result g xs))"
    by (rule simulates_bind) (simp_all add: Cons)
  then show ?case by (simp add: simulates_def)
qed

lemma simulates_replay_line:
  "simulates (replay_line True is_plus l) (replay_line False is_plus l)"
proof (rule simulatesI)
  fix s s' t assume "replay_line True is_plus l s = Inr s'"
  from replay_line_Inr[OF this] show
    "replay_line False is_plus l (s\<lparr>gamma_tensor := t\<rparr>) = Inr (s'\<lparr>gamma_tensor := t\<rparr>)"
    by (auto simp: replay_line_False)
qed

lemma simulates_replay: "simulates (replay True is_plus) (replay False is_plus)"
proof (rule simulatesI)
  fix s s' t assume a: "replay True is_plus s = Inr s'"
  show "replay False is_plus (s\<lparr>gamma_tensor := t\<rparr>) = Inr (s'\<lparr>gamma_tensor := t\<rparr>)"
  proof (cases "progress s is_plus")
    case None
    with a show ?thesis by (simp add: replay_def)
  next
    case (Some ls)
    with a simulatesD[OF simulates_fold[of ls "replay_line True is_plus" "replay_line False is_plus"]]
    show ?thesis by (simp add: replay_def simulates_replay_line)
  qed
qed

lemma simulates_accumulate:
  "simulates (accumulate True is_plus n nu_i out) (accumulate False is_plus n nu_i out)"
proof (rule simulatesI)
  fix s s' t assume "accumulate True is_plus n nu_i out s = Inr s'"
  from accumulate_Inr[OF this] show
    "accumulate False is_plus n nu_i out (s\<lparr>gamma_tensor := t\<rparr>) = Inr (s'\<lparr>gamma_tensor := t\<rparr>)"
    by (auto simp: accumulate_False savetxt_def log_of_def)
qed

lemma open_append_tensor:
  "open_append is_plus (s\<lparr>gamma_tensor := t\<rparr>) = (open_append is_plus s)\<lparr>gamma_tensor := t\<rparr>"
  by (simp add: open_append_def split: option.splits)

lemma simulates_bra_mode_step:
  "simulates (bra_mode_step U True ph is_plus index_k kpp bf sg mu)
     (bra_mode_step U False ph is_plus index_k kpp bf sg mu)"
proof (rule simulatesI)
  fix s s' t assume a: "bra_mode_step U True ph is_plus index_k kpp bf sg mu s = Inr s'"
  show "bra_mode_step U False ph is_plus index_k kpp bf sg mu (s\<lparr>gamma_tensor := t\<rparr>)
          = Inr (s'\<lparr>gamma_tensor := t\<rparr>)"
    using a simulatesD[OF simulates_accumulate, of is_plus "n_modes ph"
        "ravel_mode (n_modes ph) index_k mu" _ "open_append is_plus s" s' t]
    by (auto simp: bra_mode_step_def Let_def open_append_tensor
        split: if_splits option.splits sum.splits)
qed

lemma simulates_mu_loop:
  "simulates (mu_loop U True ph is_plus ik im index_k kpp bf sg mus)
     (mu_loop U False ph is_plus ik im index_k kpp bf sg mus)"
proof (induction mus)
  case Nil
  show ?case by (simp add: simulates_def)
next
  case (Cons mu mus)
  show ?case
  proof (cases "index_k = ik \<and> mu < im")
    case True
    then show ?thesis by (simp add: simulates_def)
  next
    case False
    have "simulates
       (\<lambda>s. bind_result (bra_mode_step U True ph is_plus index_k kpp bf sg mu s)
               (mu_loop U True ph is_plus ik im index_k kpp bf sg mus))
       (\<lambda>s. bind_result (bra_mode_step U False ph is_plus index_k kpp bf sg mu s)
               (mu_loop U False ph is_plus ik im index_k kpp bf sg mus))"
      by (rule simulates_bind[OF simulates_bra_mode_step Cons])
    with False show ?thesis by (auto simp: simulates_def)
  qed
qed

lemma simulates_index_k_step:
  "simulates (index_k_step U True ph is_plus ik im index_k)
     (index_k_step U False ph is_plus ik im index_k)"
  using simulates_mu_loop
  by (auto simp: index_k_step_def Let_def simulates_def)

lemma log_of_tensor [simp]: "log_of (s\<lparr>gamma_tensor := t\<rparr>) b = log_of s b"
  by (simp add: log_of_def)

lemma simulates_process_pass:
  "simulates (process_pass U True ph is_plus) (process_pass U False ph is_plus)"
proof (rule simulatesI)
  fix s s' t assume a: "process_pass U True ph is_plus s = Inr s'"
  let ?start = "resume_index (log_of s is_plus)"
  from a obtain s1 where r: "replay True is_plus s = Inr s1"
    and l: "(if ?start < nptk ph * n_modes ph
             then fold_result (index_k_step U True ph is_plus (?start div n_modes ph) (?start mod n_modes ph))
                    [?start div n_modes ph..<nptk ph] s1
             else Inr s1) = Inr s'"
    unfolding process_pass_def Let_def bind_result_Inr by blast
  have r': "replay False is_plus (s\<lparr>gamma_tensor := t\<rparr>) = Inr (s1\<lparr>gamma_tensor := t\<rparr>)"
    by (rule simulatesD[OF simulates_replay r])
  have l': "(if ?start < nptk ph * n_modes ph
             then fold_result (index_k_step U False ph is_plus (?start div n_modes ph) (?start mod n_modes ph))
                    [?start div n_modes ph..<nptk ph] (s1\<lparr>gamma_tensor := t\<rparr>)
             else Inr (s1\<lparr>gamma_tensor := t\<rparr>)) = Inr (s'\<lparr>gamma_tensor := t\<rparr>)"
    using l simulatesD[OF simulates_fold[of _ "index_k_step U True ph is_plus (?start div n_modes ph) (?start mod n_modes ph)"
          "index_k_step U False ph is_plus (?start div n_modes ph) (?start mod n_modes ph)"], OF simulates_index_k_step]
    by (auto split: if_splits)
  show "process_pass U False ph is_plus (s\<lparr>gamma_tensor := t\<rparr>) = Inr (s'\<lparr>gamma_tensor := t\<rparr>)"
    unfolding process_pass_def Let_def using r' l' by (simp split: if_splits)
qed

lemma simulates_calculate_gamma:
  assumes "calculate_gamma U True ph st = Inr st1"
  shows "calculate_gamma U False ph st = Inr (st1\<lparr>gamma_tensor := gamma_tensor st\<rparr>)"
proof -
  have e: "reset False ph st = (reset True ph st)\<lparr>gamma_tensor := gamma_tensor st\<rparr>"
    by (simp add: reset_def)
  have "simulates (\<lambda>s. bind_result (process_pass U True ph True s) (process_pass U True ph False))
          (\<lambda>s. bind_result (process_pass U False ph True s) (process_pass U False ph False))"
    by (rule simulates_bind) (rule simulates_process_pass)+
  from simulatesD[OF this, of "reset True ph st" st1 "gamma_tensor st"] assms show ?thesis
    by (simp add: calculate_gamma_def e)
qed

subsection \<open>The totals are the sums over the progress files\<close>

lemma total_Nil [simp]: "total f nu_i [] = 0"
  by (simp add: total_def)

lemma total_append [simp]: "total f nu_i (xs @ ys) = total f nu_i xs + total f nu_i ys"
  by (simp add: total_def)




lemma open_append_arrays [simp]:
  "gamma (open_append b s) = gamma s" "ps (open_append b s) = ps s"
  "gamma_tensor (open_append b s) = gamma_tensor s"
  by (simp_all add: open_append_def split: option.splits)









lemma reset_forgets:
  "reset en ph (st\<lparr>gamma := g, ps := p\<rparr>) = reset en ph st"
  "reset True ph (st\<lparr>gamma_tensor := t\<rparr>) = reset True ph st"
  by (simp_all add: reset_def)


subsection \<open>An unrecognised kernel name\<close>

lemma bra_mode_step_None:
  "bra_mode_step U en ph is_plus index_k kpp None sg mu s =
     (if frequencies ph index_k mu > frequency_threshold ph
      then Inl (UnboundLocalError, open_append is_plus s) else Inr (open_append is_plus s))"
  by (simp add: bra_mode_step_def Let_def)

lemma mu_loop_None_cong:
  assumes "frequencies ph' = frequencies ph" "frequency_threshold ph' = frequency_threshold ph"
  shows "mu_loop U' en ph' is_plus ik im index_k kpp' None sg' mus s =
         mu_loop U en ph is_plus ik im index_k kpp None sg mus s"
  by (induction mus arbitrary: s) (simp_all add: bra_mode_step_None assms)

lemma mu_loop_None_quiet:
  assumes "\<forall>mu\<in>set mus. \<not> frequencies ph index_k mu > frequency_threshold ph"
  shows "\<exists>s'. mu_loop U en ph is_plus ik im index_k kpp None sg mus s = Inr s'"
  using assms by (induction mus arbitrary: s) (simp_all add: bra_mode_step_None)

lemma fold_result_cong:
  "(\<And>x s. x \<in> set xs \<Longrightarrow> f x s = g x s) \<Longrightarrow> fold_result f xs s = fold_result g xs s"
  by (induction xs arbitrary: s) (simp_all add: bind_result_def split: sum.splits)

lemma fold_result_quiet:
  "(\<And>x s. x \<in> set xs \<Longrightarrow> \<exists>s'. f x s = Inr s') \<Longrightarrow> \<exists>s'. fold_result f xs s = Inr s'"
proof (induction xs arbitrary: s)
  case Nil
  show ?case by simp
next
  case (Cons x xs)
  from Cons.prems[of x s] obtain s1 where "f x s = Inr s1" by auto
  with Cons.IH[of s1] Cons.prems show ?case by simp
qed

lemma index_k_step_None_cong:
  assumes "select_broadening (broadening_shape ph) = None"
    and "frequencies ph' = frequencies ph" "frequency_threshold ph' = frequency_threshold ph"
    and "kpts ph' = kpts ph" "n_particles ph' = n_particles ph"
    and "broadening_shape ph' = broadening_shape ph"
  shows "index_k_step U' en ph' is_plus ik im index_k s = index_k_step U en ph is_plus ik im index_k s"
  using assms mu_loop_None_cong[OF assms(2,3)]
  by (simp add: index_k_step_def Let_def is_amorphous_def n_modes_def)

lemma process_pass_None_cong:
  assumes "select_broadening (broadening_shape ph) = None"
    and "frequencies ph' = frequencies ph" "frequency_threshold ph' = frequency_threshold ph"
    and "kpts ph' = kpts ph" "n_particles ph' = n_particles ph"
    and "broadening_shape ph' = broadening_shape ph"
  shows "process_pass U' en ph' is_plus s = process_pass U en ph is_plus s"
proof -
  have f: "fold_result (index_k_step U' en ph' is_plus ik im) xs s1
      = fold_result (index_k_step U en ph is_plus ik im) xs s1" for ik im xs s1
    by (rule fold_result_cong) (rule index_k_step_None_cong[OF assms])
  have e: "n_modes ph' = n_modes ph" "nptk ph' = nptk ph"
    using assms by (simp_all add: nptk_def n_modes_def)
  show ?thesis
    by (simp only: process_pass_def e f)
qed

lemma calculate_gamma_None_cong:
  assumes "select_broadening (broadening_shape ph) = None"
    and "frequencies ph' = frequencies ph" "frequency_threshold ph' = frequency_threshold ph"
    and "kpts ph' = kpts ph" "n_particles ph' = n_particles ph"
    and "broadening_shape ph' = broadening_shape ph"
  shows "calculate_gamma U' en ph' st = calculate_gamma U en ph st"
proof -
  have "reset en ph' st = reset en ph st"
    using assms by (simp add: reset_def n_phonons_def nptk_def n_modes_def)
  moreover have "process_pass U' en ph' b = process_pass U en ph b" for b
    by (rule ext) (rule process_pass_None_cong[OF assms])
  ultimately show ?thesis
    by (simp add: calculate_gamma_def)
qed

lemma unbound_free_Inr [simp]: "unbound_free (Inr s)"
  by (simp add: unbound_free_def)

lemma unbound_free_bind:
  "unbound_free r \<Longrightarrow> (\<And>s. unbound_free (f s)) \<Longrightarrow> unbound_free (bind_result r f)"
  by (cases r) (auto simp: unbound_free_def)

lemma unbound_free_fold:
  "(\<And>x s. x \<in> set xs \<Longrightarrow> unbound_free (f x s)) \<Longrightarrow> unbound_free (fold_result f xs s)"
  by (induction xs arbitrary: s) (simp_all add: unbound_free_bind)

lemma unbound_free_replay: "unbound_free (replay en is_plus s)"
proof -
  have a: "unbound_free (gamma_add i v s)" "unbound_free (ps_add i v s)"
    "unbound_free (tensor_add i j v s)" for i j v s
    by (simp_all add: unbound_free_def gamma_add_def ps_add_def tensor_add_def split: option.splits)
  have "unbound_free (tensor_update en is_plus i j k v s)" for i j k v s
    unfolding tensor_update_def by (auto intro!: unbound_free_bind a)
  then have "unbound_free (replay_line en is_plus l s)" for l s
    unfolding replay_line_def by (intro unbound_free_bind a)
  then show ?thesis
    unfolding replay_def by (auto split: option.splits intro!: unbound_free_fold)
qed

lemma unbound_free_mu_loop:
  assumes "\<forall>mu\<in>set mus. \<not> frequencies ph index_k mu > frequency_threshold ph"
  shows "unbound_free (mu_loop U en ph is_plus ik im index_k kpp bf sg mus s)"
  using assms
proof (induction mus arbitrary: s)
  case Nil
  show ?case by simp
next
  case (Cons mu mus)
  then have "bra_mode_step U en ph is_plus index_k kpp bf sg mu s = Inr (open_append is_plus s)"
    by (simp add: bra_mode_step_def Let_def)
  with Cons show ?case by simp
qed

lemma unbound_free_calculate_gamma:
  assumes "\<forall>k<nptk ph. \<forall>mu<n_modes ph. \<not> frequencies ph k mu > frequency_threshold ph"
  shows "unbound_free (calculate_gamma U en ph st)"
proof -
  have k: "unbound_free (index_k_step U en ph is_plus ik im index_k s)"
    if "index_k < nptk ph" for is_plus ik im index_k s
  proof (cases "is_amorphous ph")
    case True
    then show ?thesis by (simp add: index_k_step_def unbound_free_def)
  next
    case False
    have "unbound_free (mu_loop U en ph is_plus ik im index_k (index_kpp_of ph is_plus index_k)
              (select_broadening (broadening_shape ph))
              (sigma_small_of ph (index_kpp_of ph is_plus index_k)) [0..<n_modes ph] s)"
      by (rule unbound_free_mu_loop) (use that assms in auto)
    with False show ?thesis by (simp add: index_k_step_def Let_def)
  qed
  have "unbound_free (process_pass U en ph is_plus s)" for is_plus s
    unfolding process_pass_def Let_def
    by (auto intro!: unbound_free_bind unbound_free_replay unbound_free_fold k)
  then show ?thesis
    unfolding calculate_gamma_def by (intro unbound_free_bind)
qed

subsection \<open>The arrays keep their lengths\<close>

lemma same_lengths_refl_trans: "reflp same_lengths" "transp same_lengths"
  by (auto intro: reflpI transpI)

lemma tensor_only_lengths: "tensor_only s s' \<Longrightarrow> length (gamma s') = length (gamma s) \<and> length (ps s') = length (ps s)"
  by (auto simp: tensor_only_def)

lemma replay_line_lengths: "holds True same_lengths s (replay_line en is_plus l s)"
  unfolding replay_line_def
proof (intro holds_bind same_lengths_refl_trans)
  show "holds True same_lengths s (gamma_add (read_nu l) (val l) s)"
    by (simp add: gamma_add_def)
  show "holds True same_lengths s1 (ps_add (read_nu l) (value_ps l) s1)" for s1
    by (simp add: ps_add_def)
  show "holds True same_lengths s2
          (tensor_update en is_plus (read_nu l) (read_nup l) (read_nupp l) (val l) s2)" for s2
    by (rule holds_mono[OF tensor_update_only]) (simp add: tensor_only_lengths)
qed

lemma replay_lengths: "holds True same_lengths s (replay en is_plus s)"
  unfolding replay_def
  by (auto split: option.splits intro!: holds_fold same_lengths_refl_trans replay_line_lengths)

lemma accumulate_lengths: "holds True same_lengths s (accumulate en is_plus n nu_i out s)"
  unfolding accumulate_def Let_def
proof (intro holds_bind same_lengths_refl_trans)
  show "holds True same_lengths s (gamma_add nu_i (sum_list (pot_times_dirac out)) s)"
    by (simp add: gamma_add_def)
  show "holds True same_lengths s1 (ps_add nu_i (sum_list (dirac out)) s1)" for s1
    by (simp add: ps_add_def)
  show "holds True same_lengths s2
     (fold_result (\<lambda>r. tensor_update en is_plus nu_i (read_nup r) (read_nupp r) (val r))
        (rows_of n nu_i out) s2)" for s2
    by (rule holds_mono[OF fold_tensor_update_only]) (simp add: tensor_only_lengths)
  show "holds True same_lengths s3 (Inr (savetxt is_plus (rows_of n nu_i out) s3))" for s3
    by (simp add: savetxt_def)
qed

lemma bra_mode_step_lengths:
  "holds True same_lengths s (bra_mode_step U en ph is_plus index_k kpp bf sg mu s)"
  by (rule holds_bra_mode_step[OF same_lengths_refl_trans])
     (simp_all add: accumulate_lengths open_append_def split: option.splits)

lemma calculate_gamma_lengths:
  "length (gamma (final_state (calculate_gamma U en ph st))) = n_phonons ph
   \<and> length (ps (final_state (calculate_gamma U en ph st))) = n_phonons ph"
proof -
  have "holds True (\<lambda>s s'. length (gamma s') = length (gamma s) \<and> length (ps s') = length (ps s))
          (reset en ph st) (calculate_gamma U en ph (reset en ph st))"
    by (rule holds_calculate_gamma[OF same_lengths_refl_trans])
       (simp_all add: reset_def replay_lengths bra_mode_step_lengths)
  moreover have "calculate_gamma U en ph (reset en ph st) = calculate_gamma U en ph st"
    by (simp add: calculate_gamma_def reset_def)
  ultimately show ?thesis
    using holds_final[of same_lengths "reset en ph st" "calculate_gamma U en ph st"]
    by (simp add: reset_def)
qed

subsection \<open>An unrecognised kernel name: where the error is raised\<close>

lemma open_append_idem [simp]: "open_append b (open_append b s) = open_append b s"
  by (simp add: open_append_def split: option.splits)

text \<open>The loop over the branches when its \<^verbatim>\<open>break\<close> cannot fire, and when it fires at once.\<close>

lemma mu_loop_None_through:
  assumes "index_k \<noteq> ik \<or> im = 0"
  shows "mu_loop U en ph is_plus ik im index_k kpp None sg mus s =
     (if \<exists>mu\<in>set mus. frequencies ph index_k mu > frequency_threshold ph
      then Inl (UnboundLocalError, open_append is_plus s)
      else Inr (if mus = [] then s else open_append is_plus s))"
  using assms
proof (induction mus arbitrary: s)
  case Nil
  show ?case by simp
next
  case (Cons mu mus)
  from Cons.prems have nb: "\<not> (index_k = ik \<and> mu < im)" by auto
  show ?case
    using nb Cons.IH[OF Cons.prems, of "open_append is_plus s"]
    by (auto simp: bra_mode_step_None)
qed

lemma mu_loop_break:
  assumes "0 < im"
  shows "mu_loop U en ph is_plus ik im ik kpp bf sg [0..<n] s = Inr s"
proof (cases n)
  case 0
  then show ?thesis by simp
next
  case (Suc m)
  then have "[0..<n] = 0 # [1..<n]" by (simp add: upt_rec)
  then show ?thesis using assms by simp
qed

lemma index_k_step_None:
  assumes "select_broadening (broadening_shape ph) = None" and "\<not> is_amorphous ph"
  shows "index_k_step U en ph is_plus ik im index_k s =
     (if index_k = ik \<and> 0 < im then Inr s
      else if \<exists>mu<n_modes ph. frequencies ph index_k mu > frequency_threshold ph
           then Inl (UnboundLocalError, open_append is_plus s)
           else Inr (if n_modes ph = 0 then s else open_append is_plus s))"
proof (cases "index_k = ik \<and> 0 < im")
  case True
  then show ?thesis
    using assms mu_loop_break[of im] by (simp add: index_k_step_def Let_def)
next
  case False
  then have "index_k \<noteq> ik \<or> im = 0" by auto
  from mu_loop_None_through[OF this] False assms show ?thesis
    by (auto simp: index_k_step_def Let_def)
qed

text \<open>
  A loop whose steps each either return or raise a given error, whatever the state: it
  raises the error when one of its steps does, and returns when none does.
\<close>

lemma fold_result_raises:
  assumes "x \<in> set xs" and "\<And>s. \<exists>s'. f x s = Inl (e, s')"
    and "\<And>y s. y \<in> set xs \<Longrightarrow> (\<exists>s'. f y s = Inr s') \<or> (\<exists>s'. f y s = Inl (e, s'))"
  shows "\<exists>s'. fold_result f xs s = Inl (e, s')"
  using assms(1,3)
proof (induction xs arbitrary: s)
  case Nil
  then show ?case by simp
next
  case (Cons y ys)
  from Cons.prems(2)[of y s] consider s1 where "f y s = Inr s1" | s1 where "f y s = Inl (e, s1)"
    by auto
  then show ?case
  proof cases
    case 1
    with assms(2)[of s] have "x \<noteq> y" by auto
    with Cons.prems have "x \<in> set ys" by simp
    from Cons.IH[OF this, of s1] Cons.prems(2) 1 show ?thesis by simp
  next
    case 2
    then show ?thesis by simp
  qed
qed

lemma process_pass_None_raises:
  assumes n: "select_broadening (broadening_shape ph) = None" and a: "\<not> is_amorphous ph"
    and r: "replay en is_plus s = Inr s1"
    and m: "reached ph (log_of s is_plus) index_k mu"
    and p: "frequencies ph index_k mu > frequency_threshold ph"
  shows "\<exists>s'. process_pass U en ph is_plus s = Inl (UnboundLocalError, s')"
proof -
  let ?start = "resume_index (log_of s is_plus)"
  let ?ik = "?start div n_modes ph" and ?im = "?start mod n_modes ph"
  from m have st: "?start < nptk ph * n_modes ph" and k: "index_k < nptk ph" and mu: "mu < n_modes ph"
    and c: "?ik < index_k \<or> (index_k = ?ik \<and> ?im = 0)"
    by (simp_all add: reached_def Let_def)
  from c k have mem: "index_k \<in> set [?ik..<nptk ph]" by auto
  have here: "\<exists>s'. index_k_step U en ph is_plus ?ik ?im index_k s2 = Inl (UnboundLocalError, s')" for s2
    using c mu p by (auto simp: index_k_step_None[OF n a])
  have each: "(\<exists>s'. index_k_step U en ph is_plus ?ik ?im y s2 = Inr s')
      \<or> (\<exists>s'. index_k_step U en ph is_plus ?ik ?im y s2 = Inl (UnboundLocalError, s'))" for y s2
    by (simp add: index_k_step_None[OF n a])
  have "\<exists>s'. fold_result (index_k_step U en ph is_plus ?ik ?im) [?ik..<nptk ph] s1
      = Inl (UnboundLocalError, s')"
    by (rule fold_result_raises[where x = index_k]) (rule mem, rule here, rule each)
  then show ?thesis
    using r st by (simp add: process_pass_def Let_def)
qed

lemma process_pass_None_returns:
  assumes n: "select_broadening (broadening_shape ph) = None" and a: "\<not> is_amorphous ph"
    and r: "replay en is_plus s = Inr s1"
    and q: "\<And>index_k mu. reached ph (log_of s is_plus) index_k mu \<Longrightarrow>
              \<not> frequencies ph index_k mu > frequency_threshold ph"
  shows "\<exists>s'. process_pass U en ph is_plus s = Inr s'"
proof -
  let ?start = "resume_index (log_of s is_plus)"
  let ?ik = "?start div n_modes ph" and ?im = "?start mod n_modes ph"
  show ?thesis
  proof (cases "?start < nptk ph * n_modes ph")
    case False
    then show ?thesis using r by (simp add: process_pass_def Let_def)
  next
    case True
    have "\<exists>s'. index_k_step U en ph is_plus ?ik ?im y s2 = Inr s'"
      if "y \<in> set [?ik..<nptk ph]" for y s2
    proof (cases "y = ?ik \<and> 0 < ?im")
      case True
      then show ?thesis by (simp add: index_k_step_None[OF n a])
    next
      case False
      with that have c: "?ik < y \<or> (y = ?ik \<and> ?im = 0)" and k: "y < nptk ph"
        by auto
      have "\<not> frequencies ph y mu > frequency_threshold ph" if "mu < n_modes ph" for mu
        by (rule q) (use True c k that in \<open>simp add: reached_def Let_def\<close>)
      then show ?thesis using False by (auto simp: index_k_step_None[OF n a])
    qed
    from fold_result_quiet[of "[?ik..<nptk ph]" "index_k_step U en ph is_plus ?ik ?im", OF this]
    obtain s' where "fold_result (index_k_step U en ph is_plus ?ik ?im) [?ik..<nptk ph] s1 = Inr s'"
      by blast
    then show ?thesis
      using r True by (simp add: process_pass_def Let_def)
  qed
qed

text \<open>From empty progress files the run changes neither array after the reset.\<close>

lemma untouched_refl_trans: "reflp untouched" "transp untouched"
  by (auto intro!: reflpI transpI simp: untouched_def)

lemma replay_empty: "log_of s b = [] \<Longrightarrow> replay en b s = Inr s"
  by (simp add: replay_def log_of_def split: option.splits)

lemma process_pass_None_untouched:
  assumes "select_broadening (broadening_shape ph) = None" and "log_of s b = []"
  shows "holds True untouched s (process_pass U en ph b s)"
proof (rule holds_process_pass[OF untouched_refl_trans])
  show "holds True untouched s (replay en b s)"
    by (simp add: replay_empty[OF assms(2)] untouched_def)
next
  fix index_k mu s2
  show "holds True untouched s2
          (bra_mode_step U en ph b index_k (index_kpp_of ph b index_k)
            (select_broadening (broadening_shape ph))
            (sigma_small_of ph (index_kpp_of ph b index_k)) mu s2)"
    unfolding assms(1) by (simp add: bra_mode_step_None untouched_def)
qed

lemma calculate_gamma_None_fresh:
  assumes n: "select_broadening (broadening_shape ph) = None"
    and e: "log_of st True = []" "log_of st False = []"
  shows "holds True untouched (reset en ph st) (calculate_gamma U en ph st)"
  unfolding calculate_gamma_def
proof (rule holds_bind[OF untouched_refl_trans(2)])
  have l: "log_of (reset en ph st) b = log_of st b" for b
    by (simp add: reset_def log_of_def)
  show "holds True untouched (reset en ph st) (process_pass U en ph True (reset en ph st))"
    by (rule process_pass_None_untouched[OF n]) (simp add: l e)
  fix s assume "untouched (reset en ph st) s"
  then have "log_of s False = []"
    by (simp add: untouched_def l e)
  then show "holds True untouched s (process_pass U en ph False s)"
    by (rule process_pass_None_untouched[OF n])
qed

lemma reached_fresh:
  "reached ph [] index_k mu \<longleftrightarrow> index_k < nptk ph \<and> mu < n_modes ph"
  by (cases "nptk ph"; cases "n_modes ph") (auto simp: reached_def resume_index_def)

lemma calculate_gamma_None_fresh_outcome:
  assumes n: "select_broadening (broadening_shape ph) = None" and a: "\<not> is_amorphous ph"
    and e: "log_of st True = []" "log_of st False = []"
  shows "(if \<exists>k<nptk ph. \<exists>mu<n_modes ph. frequencies ph k mu > frequency_threshold ph
          then \<exists>st'. calculate_gamma U en ph st = Inl (UnboundLocalError, st')
          else \<exists>st'. calculate_gamma U en ph st = Inr st')"
proof -
  let ?s0 = "reset en ph st"
  have l: "log_of ?s0 b = log_of st b" for b
    by (simp add: reset_def log_of_def)
  have r0: "replay en True ?s0 = Inr ?s0"
    by (rule replay_empty) (simp add: l e)
  show ?thesis
  proof (cases "\<exists>k<nptk ph. \<exists>mu<n_modes ph. frequencies ph k mu > frequency_threshold ph")
    case True
    then obtain k mu where "reached ph (log_of ?s0 True) k mu"
      "frequencies ph k mu > frequency_threshold ph"
      by (auto simp: l e reached_fresh)
    from process_pass_None_raises[OF n a r0 this, where U = U]
    obtain s' where "process_pass U en ph True ?s0 = Inl (UnboundLocalError, s')"
      by blast
    then show ?thesis
      using True by (auto simp: calculate_gamma_def)
  next
    case False
    then have q: "\<not> frequencies ph k mu > frequency_threshold ph"
      if "reached ph [] k mu" for k mu
      using that by (auto simp: reached_fresh)
    from process_pass_None_returns[OF n a r0, where U = U] q
    obtain s1 where 1: "process_pass U en ph True ?s0 = Inr s1"
      by (auto simp: l e)
    from holds_InrD[OF process_pass_None_untouched[OF n] 1] have "log_of s1 False = []"
      by (simp add: untouched_def l e)
    then have r1: "replay en False s1 = Inr s1" and l1: "log_of s1 False = []"
      by (simp_all add: replay_empty)
    from process_pass_None_returns[OF n a r1, where U = U] q
    obtain s2 where "process_pass U en ph False s1 = Inr s2"
      by (auto simp: l1)
    with 1 False show ?thesis
      by (auto simp: calculate_gamma_def)
  qed
qed

lemma unbound_free_amorphous:
  assumes "is_amorphous ph"
  shows "unbound_free (calculate_gamma U en ph st)"
proof -
  have k: "unbound_free (index_k_step U en ph is_plus ik im index_k s)" for is_plus ik im index_k s
    using assms by (simp add: index_k_step_def unbound_free_def)
  have "unbound_free (process_pass U en ph is_plus s)" for is_plus s
    unfolding process_pass_def Let_def
    by (auto intro!: unbound_free_bind unbound_free_replay unbound_free_fold k)
  then show ?thesis
    unfolding calculate_gamma_def by (intro unbound_free_bind)
qed

section \<open>The runs of the concrete systems\<close>



lemma A_shape: "n_modes ph_A = 3" "nptk ph_A = 2" "n_phonons ph_A = 6" "\<not> is_amorphous ph_A"
  by (simp_all add: n_modes_def nptk_def n_phonons_def is_amorphous_def ph_A_def)

lemma B_shape: "n_modes ph_B = 3" "nptk ph_B = 2" "n_phonons ph_B = 6" "\<not> is_amorphous ph_B"
  by (simp_all add: n_modes_def nptk_def n_phonons_def is_amorphous_def ph_A_def ph_B_def)

lemma A_kpp: "index_kpp_of ph_A True 0 = [0, 1]" "index_kpp_of ph_A False 0 = [0, 1]"
  "index_kpp_of ph_A True (Suc 0) = [1, 0]" "index_kpp_of ph_A False (Suc 0) = [1, 0]"
  by (simp_all add: index_kpp_of_def A_shape upt_2 second_sign_def, simp_all add: ph_A_def)

lemma B_kpp: "index_kpp_of ph_B True 0 = [0, 1]" "index_kpp_of ph_B False 0 = [0, 1]"
  "index_kpp_of ph_B True (Suc 0) = [1, 0]" "index_kpp_of ph_B False (Suc 0) = [1, 0]"
  by (simp_all add: index_kpp_of_def B_shape upt_2 second_sign_def, simp_all add: ph_A_def ph_B_def)

lemma C_shape: "n_modes ph_C = 3" "nptk ph_C = 3" "n_phonons ph_C = 9" "\<not> is_amorphous ph_C"
  by (simp_all add: n_modes_def nptk_def n_phonons_def is_amorphous_def ph_A_def ph_C_def)

lemma C_kpp: "index_kpp_of ph_C True 0 = [0, 1, 2]" "index_kpp_of ph_C False 0 = [0, 2, 1]"
  "index_kpp_of ph_C True (Suc 0) = [1, 2, 0]" "index_kpp_of ph_C False (Suc 0) = [1, 0, 2]"
  "index_kpp_of ph_C True 2 = [2, 0, 1]" "index_kpp_of ph_C False 2 = [2, 1, 0]"
  by (simp_all add: index_kpp_of_def C_shape upt_3 second_sign_def, simp_all add: ph_A_def ph_C_def)

lemma C_contract:
  "contract (n_replicas ph_C) 3 (scaled_potential ph_C nu_i) (first_evect ph_C b)
     (first_chi ph_C b) (second_evect ph_C kpp) (second_chi ph_C kpp) k n m = 27"
  by (simp add: contract_def scaled_potential_def first_evect_def first_chi_def second_evect_def
      second_chi_def rescaled_eigenvectors_def chi_def n_modes_def ph_A_def ph_C_def)

lemma C_fields:
  "frequencies ph_C k mu = (if mu = 0 then real k else 0)"
  "occupations ph_C k mu = (if k = 1 then 2 else 1)"
  "frequency_threshold ph_C = 1 / 2"
  "sigma_in ph_C = Some (3 / 4)"
  "broadening_shape ph_C = ''lorentz''"
  by (simp_all add: ph_A_def ph_C_def)

lemma A_contract:
  "contract (n_replicas ph_A) 3 (scaled_potential ph_A nu_i) (first_evect ph_A b)
     (first_chi ph_A b) (second_evect ph_A kpp) (second_chi ph_A kpp) k n m = 27"
  by (simp add: contract_def scaled_potential_def first_evect_def first_chi_def second_evect_def
      second_chi_def rescaled_eigenvectors_def chi_def n_modes_def ph_A_def)

lemma B_contract:
  "contract (n_replicas ph_B) 3 (scaled_potential ph_B nu_i) (first_evect ph_B b)
     (first_chi ph_B b) (second_evect ph_B kpp) (second_chi ph_B kpp) k n m = 27"
  by (simp add: contract_def scaled_potential_def first_evect_def first_chi_def second_evect_def
      second_chi_def rescaled_eigenvectors_def chi_def n_modes_def ph_A_def ph_B_def)

lemma A_fields:
  "frequencies ph_A k mu = (if k = 0 \<and> mu = 0 then 1 else if k = 0 \<and> mu = 1 then 2 else 0)"
  "occupations ph_A k mu = (if k = 0 \<and> mu = 0 then 2 else 1)"
  "frequency_threshold ph_A = 1 / 2"
  "sigma_in ph_A = Some (3 / 4)"
  "broadening_shape ph_A = ''lorentz''"
  by (simp_all add: ph_A_def)

lemma B_fields:
  "frequencies ph_B k mu = (if mu = 0 then (if k = 0 then 1 else 3) else 0)"
  "occupations ph_B k mu = (if k = 0 \<and> mu = 0 then 2 else 1)"
  "frequency_threshold ph_B = 1 / 2"
  "sigma_in ph_B = Some (3 / 4)"
  "broadening_shape ph_B = ''lorentz''"
  by (simp_all add: ph_A_def ph_B_def)

lemmas single_defs = calculate_single_gamma_def interactions_def condition_def omegas_difference_def omegas_def
   upt_2 upt_3 second_sign_def DELTA_THRESHOLD_def differences_def widths_def imul_def weight_def
   lorentzian_delta_def lorentzian_def IS_DELTA_CORRECTION_ENABLED_def U0_def gammatothz_def EVTOTENJOVERMOL_def
   Let_def

lemmas step_defs = bra_mode_step_def sigma_small_of_def select_broadening_def ravel_mode_def
   power2_eq_square

lemmas run_defs = calculate_gamma_def reset_def process_pass_def replay_def resume_index_def
  log_of_def index_k_step_def accumulate_def gamma_add_def ps_add_def savetxt_def
  open_append_def rows_of_def tensor_update_def tensor_add_def replay_line_def fmt_row_def

lemma foo_fields:
  "frequencies ph_foo = frequencies ph_A" "frequency_threshold ph_foo = 1 / 2"
  "broadening_shape ph_foo = ''foo''" "n_modes ph_foo = 3" "nptk ph_foo = 2" "n_phonons ph_foo = 6"
  "\<not> is_amorphous ph_foo"
  by (simp_all add: ph_foo_def ph_A_def n_modes_def nptk_def n_phonons_def is_amorphous_def)

lemma quiet_fields:
  "frequencies ph_quiet k mu = 0" "frequency_threshold ph_quiet = 1 / 2"
  "broadening_shape ph_quiet = ''foo''" "n_modes ph_quiet = 3" "nptk ph_quiet = 2"
  "n_phonons ph_quiet = 6" "\<not> is_amorphous ph_quiet"
  by (simp_all add: ph_quiet_def ph_A_def n_modes_def nptk_def n_phonons_def is_amorphous_def)

lemmas list_defs = eval_nat_numeral fun_eq_iff row_def fmt_row_def

lemma run_quiet: "calculate_gamma U0 False ph_quiet st_A0 = Inr st_quiet"
  apply (simp add: run_defs step_defs upt_2 upt_3 st_A0_def quiet_fields Let_def)
  apply (simp add: st_quiet_def list_defs)
  done

lemma run_foo: "calculate_gamma U0 False ph_foo st_A0 = Inl (UnboundLocalError, st_foo)"
  apply (simp add: run_defs step_defs upt_2 upt_3 st_A0_def foo_fields A_fields Let_def)
  apply (simp add: st_foo_def list_defs)
  done


lemma run_B_tensor: "calculate_gamma U0 True ph_B st_A0 = Inr st_B_tensor"
  apply (simp add: run_defs single_defs step_defs st_A0_def B_kpp B_contract B_shape B_fields bind_result_def)
  apply (simp add: st_B_tensor_def plus_log_B_def minus_log_B_def list_defs)
  apply (simp add: mult_ac)?
  done

lemma run_A_full: "calculate_gamma U0 False ph_A st_A0 = Inr st_A_full"
  apply (simp add: run_defs single_defs step_defs st_A0_def A_kpp A_contract A_shape A_fields)
  apply (simp add: st_A_full_def plus_log_A_def minus_log_A_def list_defs)
  apply (simp add: mult_ac)?
  done

lemma run_A_resumed: "calculate_gamma U0 False ph_A st_A_cut = Inr st_A_resumed"
  apply (simp add: run_defs single_defs step_defs st_A0_def st_A_cut_def A_kpp A_contract A_shape A_fields
       plus_log_A_def row_def bind_result_def)
  apply (simp add: st_A_resumed_def plus_log_A_def minus_log_A_def list_defs)
  apply (simp add: mult_ac)?
  done

lemma run_C: "calculate_gamma U0 False ph_C st_A0 = Inr st_C"
  apply (simp add: run_defs single_defs step_defs st_A0_def C_kpp C_contract C_shape C_fields)
  apply (simp add: st_C_def plus_log_C_def minus_log_C_def list_defs)
  apply (simp add: mult_ac)?
  done

lemma replay_foo: "replay False True (reset False ph_foo st_A_cut) = Inr st_foo_replayed"
  apply (simp add: run_defs st_A0_def st_A_cut_def foo_fields plus_log_A_def row_def)
  apply (simp add: st_foo_replayed_def plus_log_A_def list_defs)
  apply (simp add: mult_ac)?
  done

lemma reached_foo_cut:
  "\<not> (\<exists>index_k mu. reached ph_foo (log_of (reset False ph_foo st_A_cut) True) index_k mu
          \<and> frequencies ph_foo index_k mu > frequency_threshold ph_foo)"
  by (auto simp: reached_def resume_index_def reset_def log_of_def st_A_cut_def st_A0_def
      plus_log_A_def row_def foo_fields A_fields Let_def)

section \<open>Properties of \<open>calculate_gamma\<close>\<close>

text \<open>
  C4: whatever the run does, every row it appends to a progress file conserves
  quasi-momentum: the file at the end is the file at the start followed by new rows, and
  the wavevector indices \<open>index_k\<close>, \<open>index_kp\<close>, \<open>index_kpp\<close> decoded from a new row
  are the row-major indices of mesh points \<open>q\<close>, \<open>q'\<close>, \<open>q''\<close> with
  \<open>q'' = (q + q') mod mesh\<close> in the plus file and \<open>q'' = (q - q') mod mesh\<close> in the
  minus file, component by component. The state at the end is the one returned or the one
  an exception leaves.
\<close>

theorem logged_triplets_conserve_momentum:
  "\<exists>new. log_of (final_state (calculate_gamma U en ph st)) is_plus = log_of st is_plus @ new
        \<and> (\<forall>r\<in>set new. momentum_conserved ph is_plus r)"
  using holds_final[OF calculate_gamma_appended, of ph st U en]
  by (simp add: appended_def list_all_iff)

text \<open>
  The theorem on the first run of \<open>ph_C\<close>, on the mesh \<open>(3, 1, 1)\<close>: the row of the plus
  file has the wavevectors \<open>1\<close>, \<open>1\<close> and \<open>2 = (1 + 1) mod 3\<close>, the row of the minus file
  \<open>2\<close>, \<open>1\<close> and \<open>1 = (2 - 1) mod 3\<close>; read as a minus row, the plus row does not
  conserve quasi-momentum.
\<close>

theorem logged_triplets_conserve_momentum_witness:
  "log_of (final_state (calculate_gamma U0 False ph_C st_A0)) True = plus_log_C
   \<and> list_all (momentum_conserved ph_C True) plus_log_C
   \<and> log_of (final_state (calculate_gamma U0 False ph_C st_A0)) False = minus_log_C
   \<and> list_all (momentum_conserved ph_C False) minus_log_C
   \<and> map (\<lambda>r. (read_nu r div 3, read_nup r div 3, read_nupp r div 3)) plus_log_C = [(1, 1, 2)]
   \<and> map (\<lambda>r. (read_nu r div 3, read_nup r div 3, read_nupp r div 3)) minus_log_C = [(2, 1, 1)]
   \<and> \<not> list_all (momentum_conserved ph_C False) plus_log_C"
proof -
  have a: "log_of st_A0 b = []" "log_of st_C b = (if b then plus_log_C else minus_log_C)" for b
    by (simp_all add: log_of_def st_A0_def st_C_def)
  from logged_triplets_conserve_momentum[where U = U0 and en = False and ph = ph_C and st = st_A0
      and is_plus = True]
  have p: "list_all (momentum_conserved ph_C True) plus_log_C"
    by (simp add: run_C a list_all_iff)
  from logged_triplets_conserve_momentum[where U = U0 and en = False and ph = ph_C and st = st_A0
      and is_plus = False]
  have m: "list_all (momentum_conserved ph_C False) minus_log_C"
    by (simp add: run_C a list_all_iff)
  have k: "kpts ph_C = (3, 1, 1)"
    by (simp add: ph_C_def)
  have n: "\<not> list_all (momentum_conserved ph_C False) plus_log_C"
    by (auto simp: plus_log_C_def row_def momentum_conserved_def k C_shape)
  have i: "map (\<lambda>r. (read_nu r div 3, read_nup r div 3, read_nupp r div 3)) plus_log_C = [(1, 1, 2)]"
    "map (\<lambda>r. (read_nu r div 3, read_nup r div 3, read_nupp r div 3)) minus_log_C = [(2, 1, 1)]"
    by (simp_all add: plus_log_C_def minus_log_C_def row_def)
  show ?thesis
    using p m n i by (simp add: run_C a)
qed

text \<open>
  C6: with the tensor option disabled the tensor is never written: it is, at the end of
  the run (returned or raised), what it was at the start. And where the run with the
  option enabled returns, the run with the option disabled returns from the same start
  with the same rate array, the same phase-space array and the same progress files.
\<close>

theorem tensor_option_is_a_frame:
  "gamma_tensor (final_state (calculate_gamma U False ph st)) = gamma_tensor st
   \<and> (calculate_gamma U True ph st = Inr st1 \<longrightarrow>
        (\<exists>st0. calculate_gamma U False ph st = Inr st0
           \<and> gamma st0 = gamma st1 \<and> ps st0 = ps st1 \<and> progress st0 = progress st1))"
  using holds_final[OF calculate_gamma_tensor] simulates_calculate_gamma[of U ph st st1]
  by auto

text \<open>
  The theorem on the first run of \<open>ph_B\<close>: the enabled run returns \<open>st_B_tensor\<close>, and
  the disabled run returns the same state with the tensor still unallocated.
\<close>

theorem tensor_option_is_a_frame_witness:
  "calculate_gamma U0 True ph_B st_A0 = Inr st_B_tensor
   \<and> calculate_gamma U0 False ph_B st_A0 = Inr (st_B_tensor\<lparr>gamma_tensor := None\<rparr>)"
proof -
  from tensor_option_is_a_frame[where U = U0 and ph = ph_B and st = st_A0 and ?st1.0 = st_B_tensor] run_B_tensor
  obtain st0 where r: "calculate_gamma U0 False ph_B st_A0 = Inr st0"
    and e: "gamma st0 = gamma st_B_tensor" "ps st0 = ps st_B_tensor"
      "progress st0 = progress st_B_tensor"
    and t: "gamma_tensor (final_state (calculate_gamma U0 False ph_B st_A0)) = gamma_tensor st_A0"
    by auto
  from t r have "gamma_tensor st0 = None"
    by (simp add: st_A0_def)
  with e have "st0 = st_B_tensor\<lparr>gamma_tensor := None\<rparr>"
    by (intro gamma_state.equality) simp_all
  with r run_B_tensor show ?thesis by simp
qed



text \<open>
  C2, as the code has it. Under a kernel name that is none of \<open>gauss\<close>, \<open>lorentz\<close>,
  \<open>triangle\<close> the run writes no row to either progress file and evaluates no triplet:
  its outcome is the same for any other occupations, eigenvectors, velocities, widths,
  third-order tensor and unit constants. It does not fail before it begins: the
  accumulators are reset and the progress file of the pass is replayed first, and the
  error of the unbound kernel is raised when the pass reaches a bra mode above the
  frequency threshold. On a mesh other than \<open>(1, 1, 1)\<close>, a pass whose replay succeeds
  raises that error exactly when a bra mode it goes through is above the threshold, and
  returns exactly when none is. On the mesh \<open>(1, 1, 1)\<close>, or with no mode above the
  threshold, the run never raises that error. From empty progress files, on a mesh other
  than \<open>(1, 1, 1)\<close>, the run raises it exactly when some mode of the mesh is above the
  threshold and returns exactly when none is, with both arrays all zero either way.
\<close>

theorem unrecognised_kernel:
  assumes "broadening_shape ph \<notin> {''gauss'', ''lorentz'', ''triangle''}"
  shows "log_of (final_state (calculate_gamma U en ph st)) is_plus = log_of st is_plus
     \<and> length (gamma (final_state (calculate_gamma U en ph st))) = n_phonons ph
     \<and> length (ps (final_state (calculate_gamma U en ph st))) = n_phonons ph
     \<and> (frequencies ph' = frequencies ph \<and> frequency_threshold ph' = frequency_threshold ph
          \<and> kpts ph' = kpts ph \<and> n_particles ph' = n_particles ph
          \<and> broadening_shape ph' = broadening_shape ph
          \<longrightarrow> calculate_gamma U' en ph' st = calculate_gamma U en ph st)
     \<and> (\<not> is_amorphous ph \<and> replay en b s = Inr s1 \<longrightarrow>
          ((\<exists>s'. process_pass U en ph b s = Inl (UnboundLocalError, s'))
             \<longleftrightarrow> (\<exists>index_k mu. reached ph (log_of s b) index_k mu
                     \<and> frequencies ph index_k mu > frequency_threshold ph))
        \<and> ((\<exists>s'. process_pass U en ph b s = Inr s')
             \<longleftrightarrow> \<not> (\<exists>index_k mu. reached ph (log_of s b) index_k mu
                       \<and> frequencies ph index_k mu > frequency_threshold ph)))
     \<and> (is_amorphous ph \<longrightarrow> unbound_free (calculate_gamma U en ph st))
     \<and> ((\<forall>k<nptk ph. \<forall>mu<n_modes ph. \<not> frequencies ph k mu > frequency_threshold ph)
          \<longrightarrow> unbound_free (calculate_gamma U en ph st))
     \<and> (log_of st True = [] \<and> log_of st False = [] \<longrightarrow>
          gamma (final_state (calculate_gamma U en ph st)) = replicate (n_phonons ph) 0
        \<and> ps (final_state (calculate_gamma U en ph st)) = replicate (n_phonons ph) 0)
     \<and> (\<not> is_amorphous ph \<and> log_of st True = [] \<and> log_of st False = [] \<longrightarrow>
          ((\<exists>st'. calculate_gamma U en ph st = Inl (UnboundLocalError, st'))
             \<longleftrightarrow> (\<exists>k<nptk ph. \<exists>mu<n_modes ph. frequencies ph k mu > frequency_threshold ph))
        \<and> ((\<exists>st'. calculate_gamma U en ph st = Inr st')
             \<longleftrightarrow> \<not> (\<exists>k<nptk ph. \<exists>mu<n_modes ph. frequencies ph k mu > frequency_threshold ph)))"
proof -
  from assms have n: "select_broadening (broadening_shape ph) = None"
    by (simp add: select_broadening_def)
  have 1: "log_of (final_state (calculate_gamma U en ph st)) is_plus = log_of st is_plus"
    using holds_final[OF calculate_gamma_unbound[OF n, where st = st and U = U and en = en]] by simp
  have 5: "((\<exists>s'. process_pass U en ph b s = Inl (UnboundLocalError, s'))
             \<longleftrightarrow> (\<exists>index_k mu. reached ph (log_of s b) index_k mu
                     \<and> frequencies ph index_k mu > frequency_threshold ph))
        \<and> ((\<exists>s'. process_pass U en ph b s = Inr s')
             \<longleftrightarrow> \<not> (\<exists>index_k mu. reached ph (log_of s b) index_k mu
                       \<and> frequencies ph index_k mu > frequency_threshold ph))"
    if a: "\<not> is_amorphous ph" and r: "replay en b s = Inr s1"
  proof (cases "\<exists>index_k mu. reached ph (log_of s b) index_k mu
                     \<and> frequencies ph index_k mu > frequency_threshold ph")
    case True
    then obtain index_k mu where "reached ph (log_of s b) index_k mu"
      "frequencies ph index_k mu > frequency_threshold ph"
      by blast
    from process_pass_None_raises[OF n a r this, where U = U] True show ?thesis
      by auto
  next
    case False
    then have "\<exists>s'. process_pass U en ph b s = Inr s'"
      by (intro process_pass_None_returns[OF n a r]) blast
    with False show ?thesis by auto
  qed
  have 8: "gamma (final_state (calculate_gamma U en ph st)) = replicate (n_phonons ph) 0
        \<and> ps (final_state (calculate_gamma U en ph st)) = replicate (n_phonons ph) 0"
    if "log_of st True = []" "log_of st False = []"
    using holds_final[OF calculate_gamma_None_fresh[OF n that, where U = U and en = en]]
    by (simp add: untouched_def reset_def)
  have 9: "((\<exists>st'. calculate_gamma U en ph st = Inl (UnboundLocalError, st'))
             \<longleftrightarrow> (\<exists>k<nptk ph. \<exists>mu<n_modes ph. frequencies ph k mu > frequency_threshold ph))
        \<and> ((\<exists>st'. calculate_gamma U en ph st = Inr st')
             \<longleftrightarrow> \<not> (\<exists>k<nptk ph. \<exists>mu<n_modes ph. frequencies ph k mu > frequency_threshold ph))"
    if "\<not> is_amorphous ph" "log_of st True = []" "log_of st False = []"
    using calculate_gamma_None_fresh_outcome[OF n that, where U = U and en = en]
    by (auto split: if_splits)
  show ?thesis
    using 1 5 8 9 calculate_gamma_lengths[where U = U and en = en and ph = ph and st = st]
      unbound_free_calculate_gamma[where U = U and en = en and ph = ph and st = st]
      unbound_free_amorphous[where U = U and en = en and ph = ph and st = st]
      calculate_gamma_None_cong[OF n, where ph' = ph' and U' = U' and en = en and st = st and U = U]
    by blast
qed

text \<open>
  The theorem under the name \<open>foo\<close>. With the modes of \<open>ph_A\<close> and no progress file the
  run raises at the first bra mode, the arrays reset, the plus file created and empty,
  and the same happens with all occupations at \<open>0\<close>. When the plus file holds the three
  rows of bra mode \<open>0\<close>, the plus pass goes through the second wavevector only, where no
  mode is above the threshold, and returns. With no mode above the threshold at all the
  run returns.
\<close>

theorem unrecognised_kernel_witness:
  "broadening_shape ph_foo \<notin> {''gauss'', ''lorentz'', ''triangle''}
   \<and> \<not> is_amorphous ph_foo \<and> log_of st_A0 True = [] \<and> log_of st_A0 False = []
   \<and> 0 < nptk ph_foo \<and> 0 < n_modes ph_foo \<and> frequencies ph_foo 0 0 > frequency_threshold ph_foo
   \<and> calculate_gamma U0 False ph_foo st_A0 = Inl (UnboundLocalError, st_foo)
   \<and> log_of st_foo True = log_of st_A0 True
   \<and> gamma st_foo = replicate (n_phonons ph_foo) 0
   \<and> calculate_gamma U0 False (ph_foo\<lparr>occupations := (\<lambda>k mu. 0)\<rparr>) st_A0
        = Inl (UnboundLocalError, st_foo)
   \<and> replay False True (reset False ph_foo st_A_cut) = Inr st_foo_replayed
   \<and> (\<exists>s'. process_pass U0 False ph_foo True (reset False ph_foo st_A_cut) = Inr s')
   \<and> broadening_shape ph_quiet \<notin> {''gauss'', ''lorentz'', ''triangle''}
   \<and> \<not> is_amorphous ph_quiet
   \<and> unbound_free (calculate_gamma U0 False ph_quiet st_A0)
   \<and> (\<exists>st'. calculate_gamma U0 False ph_quiet st_A0 = Inr st')"
proof -
  have f: "broadening_shape ph_foo \<notin> {''gauss'', ''lorentz'', ''triangle''}"
    by (simp add: foo_fields)
  have q: "broadening_shape ph_quiet \<notin> {''gauss'', ''lorentz'', ''triangle''}"
    by (simp add: quiet_fields)
  have e: "log_of st_A0 True = []" "log_of st_A0 False = []"
    by (simp_all add: log_of_def st_A0_def)
  have p: "0 < nptk ph_foo" "0 < n_modes ph_foo" "frequencies ph_foo 0 0 > frequency_threshold ph_foo"
    by (simp_all add: foo_fields A_fields)
  have r: "replay False True (reset False ph_foo st_A_cut) = Inr st_foo_replayed"
    by (simp add: replay_foo)
  have c: "\<not> (\<exists>index_k mu. reached ph_foo (log_of (reset False ph_foo st_A_cut) True) index_k mu
              \<and> frequencies ph_foo index_k mu > frequency_threshold ph_foo)"
    by (rule reached_foo_cut)
  note a = unrecognised_kernel[OF f, where U = U0 and en = False and st = st_A0 and is_plus = True
      and ph' = "ph_foo\<lparr>occupations := (\<lambda>k mu. 0)\<rparr>" and U' = U0 and b = True
      and s = "reset False ph_foo st_A_cut" and ?s1.0 = st_foo_replayed]
  note b = unrecognised_kernel[OF q, where U = U0 and en = False and st = st_A0 and is_plus = True
      and ph' = ph_quiet and U' = U0 and b = True and s = st_A0 and ?s1.0 = st_A0]
  have 1: "log_of st_foo True = log_of st_A0 True" "gamma st_foo = replicate (n_phonons ph_foo) 0"
    using a e by (simp_all add: run_foo)
  have 2: "calculate_gamma U0 False (ph_foo\<lparr>occupations := (\<lambda>k mu. 0)\<rparr>) st_A0
        = Inl (UnboundLocalError, st_foo)"
    using a by (simp add: run_foo)
  have 3: "\<exists>s'. process_pass U0 False ph_foo True (reset False ph_foo st_A_cut) = Inr s'"
    using a r c foo_fields(7) by blast
  have 4: "unbound_free (calculate_gamma U0 False ph_quiet st_A0)"
    using b by (simp add: quiet_fields)
  have 5: "\<exists>st'. calculate_gamma U0 False ph_quiet st_A0 = Inr st'"
    using b e quiet_fields(7) by (simp add: quiet_fields)
  show ?thesis using f q e p r 1 2 3 4 5 run_foo foo_fields(7) quiet_fields(7) by simp
qed

text \<open>
  C2 as stated fails: under the name \<open>foo\<close>, on a mesh with no mode above the threshold,
  the run raises nothing. It returns, with the accumulators reset and both progress files
  created.
\<close>

theorem unrecognised_kernel_returns:
  "broadening_shape ph_quiet \<notin> {''gauss'', ''lorentz'', ''triangle''}
   \<and> calculate_gamma U0 False ph_quiet st_A0 = Inr st_quiet"
  by (simp add: run_quiet quiet_fields)

text \<open>
  C1 fails on the code. A first run of \<open>ph_A\<close> returns \<open>st_A_full\<close>; its plus file
  has three rows for bra mode \<open>0\<close> and one for bra mode \<open>1\<close>. Interrupted after the
  first bra mode, the plus file holds the three rows; the resumed run replays them, finds
  the resume position at bra mode \<open>1\<close>, and leaves the loop over the branches of
  wavevector \<open>0\<close> at its first branch: bra mode \<open>1\<close> is never evaluated in the plus
  pass. The resumed run returns arrays that lack the plus row of bra mode \<open>1\<close>.
\<close>

theorem resume_skips_rest_of_wavevector:
  "calculate_gamma U0 False ph_A st_A0 = Inr st_A_full
   \<and> log_of st_A_full True = plus_log_A
   \<and> log_of st_A_cut True = take 3 plus_log_A \<and> log_of st_A_cut False = []
   \<and> calculate_gamma U0 False ph_A st_A_cut = Inr st_A_resumed
   \<and> log_of st_A_resumed True = take 3 plus_log_A
   \<and> gamma st_A_full ! 1 - gamma st_A_resumed ! 1 = 2187 / (4672 * pi ^ 4)
   \<and> ps st_A_full ! 1 - ps st_A_resumed ! 1 = 3 / (146 * pi ^ 4)
   \<and> ps st_A_resumed \<noteq> ps st_A_full"
proof -
  have p: "pi ^ 4 \<noteq> 0" by simp
  have g: "gamma st_A_full ! 1 - gamma st_A_resumed ! 1 = 2187 / (4672 * pi ^ 4)"
    by (simp add: st_A_full_def st_A_resumed_def field_simps)
  have s: "ps st_A_full ! 1 - ps st_A_resumed ! 1 = 3 / (146 * pi ^ 4)"
    by (simp add: st_A_full_def st_A_resumed_def field_simps)
  have "ps st_A_full ! 1 - ps st_A_resumed ! 1 \<noteq> 0"
    unfolding s by simp
  then have n: "ps st_A_resumed \<noteq> ps st_A_full"
    by auto
  have l: "log_of st_A_full True = plus_log_A" "log_of st_A_cut True = take 3 plus_log_A"
    "log_of st_A_cut False = []" "log_of st_A_resumed True = take 3 plus_log_A"
    by (simp_all add: log_of_def st_A_full_def st_A_cut_def st_A_resumed_def st_A0_def)
  show ?thesis
    using run_A_full run_A_resumed g s n l by simp
qed

end
